theory Spec2Isabelle
  imports Complex_Main "HOL-Library.Sublist"
begin

section \<open>Data model (types.ts and the fields of GeminiService)\<close>

datatype AppStatus = IDLE | GREETING | LISTENING | PROCESSING | SPEAKING | ERROR

datatype Author = User | Bot

record GroundingSource =
  title :: string
  uri :: string

text \<open>
  A transcript turn as handed to \<open>onTranscriptUpdate\<close>. The field \<open>grounding\<close> is
  optional in the interface: the user turns are built without it, the bot turns with it.
\<close>

record TranscriptTurn =
  author :: Author
  text' :: string
  isFinal :: bool
  grounding :: "GroundingSource list option"

text \<open>
  A grounding chunk as \<open>handleSessionMessage\<close> reads it: up to two references,
  \<open>web\<close> and \<open>maps\<close>, each with an optional title and an optional uri.
\<close>

record ChunkRef =
  refTitle :: "string option"
  refUri :: "string option"

record GroundingChunk =
  web :: "ChunkRef option"
  maps' :: "ChunkRef option"

text \<open>
  Modelled from the spec: the type \<open>LiveServerMessage\<close> of the inbound message, which the
  transport package declares and the sources only import. The record holds what
  \<open>handleSessionMessage\<close> reads from \<open>message.serverContent\<close>, in the shape section 6 of
  the specification gives: each field is optional; a transcription, when present, carries
  its text; a model turn, when present, carries the inline payloads of its parts (the
  source reads the first one, and reaches it through \<open>parts\<close> and \<open>inlineData\<close> without
  a guard). An absent \<open>serverContent\<close> is the message with every field absent.
\<close>

record LiveServerMessage =
  interrupted :: bool
  inputTranscription :: "string option"
  outputTranscription :: "string option"
  groundingChunks :: "GroundingChunk list option"
  modelTurn :: "string list option"
  turnComplete :: bool

text \<open>
  The private fields of the class. Object references are identifiers (\<open>None\<close> is
  \<open>null\<close>); \<open>outputSources\<close> is the JavaScript \<open>Set\<close> in insertion order;
  times are seconds of the audio clock, taken as exact reals.
\<close>

record GeminiService =
  session :: "nat option"
  sessionPromise :: "nat option"
  inputAudioContext :: "nat option"
  outputAudioContext :: "nat option"
  mediaStream :: "nat option"
  scriptProcessor :: "nat option"
  source :: "nat option"
  outputSources :: "nat list"
  nextStartTime :: real
  currentInputTranscription :: string
  currentOutputTranscription :: string
  currentGrounding :: "GroundingSource list"

datatype AudioContextState = Suspended | Running | Closed

datatype Cue = CueStart | CueStop | CueError

text \<open>Every effect the service has on its collaborators, in the order it happens.\<close>

datatype Event =
    StatusUpdate AppStatus "string option"
  | TranscriptUpdate TranscriptTurn
  | SourceStop nat
  | SourceStart nat real real
  | SessionClose nat
  | TracksStop nat
  | SourceDisconnect nat
  | ProcessorDisconnect nat
  | ContextClose nat
  | GetUserMedia
  | CaptureConnect nat nat
  | SendRealtimeInput nat string
  | PlayCue Cue

type_synonym step = "GeminiService \<Rightarrow> GeminiService \<times> Event list"

text \<open>Two statements in sequence: the second runs on the state the first leaves.\<close>

definition andThen :: "step \<Rightarrow> step \<Rightarrow> step" where
  "andThen f g s = (case f s of (s1, e1) \<Rightarrow> (case g s1 of (s2, e2) \<Rightarrow> (s2, e1 @ e2)))"

section \<open>handleSessionMessage\<close>

text \<open>
  The handler is an \<open>async\<close> method, its blocks in the order of the source. Its one
  suspension is the decoding of a chunk inside \<open>playStreamedAudio\<close>:
  \<open>handleSessionMessage\<close> is the handler with nothing running during that decoding, and
  its two halves around the suspension are given after it.

  What the browser gives a call of \<open>playStreamedAudio\<close>: the reading of the output
  context's clock, the node \<open>createBufferSource\<close> returns, and the duration of the buffer
  \<open>decodeAudioData\<close> produces for a payload (that function is not among the sources).
\<close>

record AudioEnv =
  currentTime :: real
  newSource :: nat
  bufferDuration :: "string \<Rightarrow> real"

text \<open>\<open>Set.add\<close>: an element already present keeps its place.\<close>

definition setAdd :: "nat \<Rightarrow> nat list \<Rightarrow> nat list" where
  "setAdd n xs = (if n \<in> set xs then xs else xs @ [n])"

text \<open>\<open>a || d\<close> on an optional string: \<open>undefined\<close> and the empty string are falsy.\<close>

fun orElse :: "string option \<Rightarrow> string \<Rightarrow> string" where
  "orElse None d = d"
| "orElse (Some x) d = (if x = [] then d else x)"

text \<open>\<open>chunk.web?.title\<close> and its siblings.\<close>

definition optField :: "ChunkRef option \<Rightarrow> (ChunkRef \<Rightarrow> string option) \<Rightarrow> string option" where
  "optField r f = (case r of None \<Rightarrow> None | Some c \<Rightarrow> f c)"

definition toSource :: "GroundingChunk \<Rightarrow> GroundingSource" where
  "toSource chunk =
     \<lparr> title = orElse (optField (web chunk) refTitle) (orElse (optField (maps' chunk) refTitle) ''Source''),
       uri = orElse (optField (web chunk) refUri) (orElse (optField (maps' chunk) refUri) ''#'') \<rparr>"

definition resolveGrounding :: "GroundingChunk list \<Rightarrow> GroundingSource list" where
  "resolveGrounding chunks = filter (\<lambda>src. uri src \<noteq> ''#'') (map toSource chunks)"

definition botTurn :: "GeminiService \<Rightarrow> bool \<Rightarrow> TranscriptTurn" where
  "botTurn s fin =
     \<lparr> author = Bot, text' = currentOutputTranscription s, isFinal = fin,
       grounding = Some (currentGrounding s) \<rparr>"

definition userTurn :: "GeminiService \<Rightarrow> bool \<Rightarrow> TranscriptTurn" where
  "userTurn s fin =
     \<lparr> author = User, text' = currentInputTranscription s, isFinal = fin, grounding = None \<rparr>"

text \<open>Lines 210 to 214 and 251 to 255: flush the bot accumulator as a final turn.\<close>

definition finalizeBot :: step where
  "finalizeBot s =
     (if currentOutputTranscription s \<noteq> []
      then (s\<lparr>currentOutputTranscription := [], currentGrounding := []\<rparr>,
            [TranscriptUpdate (botTurn s True)])
      else (s, []))"

definition finalizeUser :: step where
  "finalizeUser s =
     (if currentInputTranscription s \<noteq> []
      then (s\<lparr>currentInputTranscription := []\<rparr>, [TranscriptUpdate (userTurn s True)])
      else (s, []))"

text \<open>Lines 203 to 215.\<close>

definition onInterrupted :: "LiveServerMessage \<Rightarrow> step" where
  "onInterrupted m s =
     (if interrupted m
      then (case finalizeBot (s\<lparr>outputSources := [], nextStartTime := 0\<rparr>) of
              (s1, e1) \<Rightarrow> (s1, map SourceStop (outputSources s) @ e1))
      else (s, []))"

text \<open>Lines 217 to 222.\<close>

definition onInputTranscription :: "LiveServerMessage \<Rightarrow> step" where
  "onInputTranscription m s =
     (case inputTranscription m of
        None \<Rightarrow> (s, [])
      | Some t \<Rightarrow>
          (let s1 = s\<lparr>currentInputTranscription := t\<rparr>
           in (s1, [StatusUpdate PROCESSING None, TranscriptUpdate (userTurn s1 False)])))"

text \<open>Lines 224 to 238.\<close>

definition onOutputTranscription :: "LiveServerMessage \<Rightarrow> step" where
  "onOutputTranscription m s =
     (case outputTranscription m of
        None \<Rightarrow> (s, [])
      | Some t \<Rightarrow>
          (let s1 = s\<lparr>currentOutputTranscription := currentOutputTranscription s @ t\<rparr>;
               s2 = (case groundingChunks m of
                       None \<Rightarrow> s1
                     | Some chunks \<Rightarrow> s1\<lparr>currentGrounding := resolveGrounding chunks\<rparr>)
           in (s2, [StatusUpdate SPEAKING None, TranscriptUpdate (botTurn s2 False)])))"

text \<open>
  \<open>playStreamedAudio\<close>, lines 259 to 275, suspends once, at the decoding of the chunk
  (line 263). Line 261, before the suspension, clamps the watermark to the clock.
\<close>

definition playStreamedAudioClamp :: "AudioEnv \<Rightarrow> GeminiService \<Rightarrow> GeminiService" where
  "playStreamedAudioClamp env s =
     s\<lparr>nextStartTime := max (nextStartTime s) (currentTime env)\<rparr>"

text \<open>
  Lines 264 to 274, after the suspension: the new node starts at the watermark as it
  stands then, the watermark advances by the duration of the buffer, and the node joins
  the live set.
\<close>

definition playStreamedAudioResume :: "AudioEnv \<Rightarrow> string \<Rightarrow> step" where
  "playStreamedAudioResume env base64Audio s =
     (let d = bufferDuration env base64Audio
      in (s\<lparr>nextStartTime := nextStartTime s + d,
             outputSources := setAdd (newSource env) (outputSources s)\<rparr>,
          [SourceStart (newSource env) (nextStartTime s) d]))"

text \<open>The whole method when nothing else runs during the decoding.\<close>

definition playStreamedAudio :: "AudioEnv \<Rightarrow> string \<Rightarrow> step" where
  "playStreamedAudio env base64Audio s =
     (case outputAudioContext s of
        None \<Rightarrow> (s, [])
      | Some ctx \<Rightarrow> playStreamedAudioResume env base64Audio (playStreamedAudioClamp env s))"

text \<open>The listener of the \<open>ended\<close> event, lines 268 to 270.\<close>

definition onEnded :: "nat \<Rightarrow> GeminiService \<Rightarrow> GeminiService" where
  "onEnded n s = s\<lparr>outputSources := removeAll n (outputSources s)\<rparr>"

text \<open>Lines 240 to 243: the payload of the first part, when there is one and it is not empty.\<close>

definition audioData :: "LiveServerMessage \<Rightarrow> string option" where
  "audioData m =
     (case modelTurn m of
        None \<Rightarrow> None
      | Some parts \<Rightarrow> (case parts of [] \<Rightarrow> None | d # _ \<Rightarrow> if d = [] then None else Some d))"

definition onAudio :: "AudioEnv \<Rightarrow> LiveServerMessage \<Rightarrow> step" where
  "onAudio env m s =
     (case audioData m of None \<Rightarrow> (s, []) | Some d \<Rightarrow> playStreamedAudio env d s)"

text \<open>Lines 245 to 256.\<close>

definition onTurnComplete :: "LiveServerMessage \<Rightarrow> step" where
  "onTurnComplete m s =
     (if turnComplete m
      then (case andThen finalizeUser finalizeBot s of
              (s1, e1) \<Rightarrow> (s1, StatusUpdate LISTENING None # e1))
      else (s, []))"

definition handleSessionMessage :: "AudioEnv \<Rightarrow> LiveServerMessage \<Rightarrow> step" where
  "handleSessionMessage env m =
     andThen (onInterrupted m)
       (andThen (onInputTranscription m)
          (andThen (onOutputTranscription m)
             (andThen (onAudio env m) (onTurnComplete m))))"

text \<open>
  The handler split at its suspension: what runs up to the decoding of the message's chunk
  (lines 203 to 261), and what runs once the chunk is decoded (lines 263 to 274, then 245
  to 256). Handlers of other messages can run in between. No method assigns
  \<open>outputAudioContext\<close> once a session runs, so the second half finds the context the
  first half tested.
\<close>

definition onAudioBegin :: "AudioEnv \<Rightarrow> LiveServerMessage \<Rightarrow> step" where
  "onAudioBegin env m s =
     (case audioData m of
        None \<Rightarrow> (s, [])
      | Some d \<Rightarrow> (case outputAudioContext s of
                     None \<Rightarrow> (s, [])
                   | Some ctx \<Rightarrow> (playStreamedAudioClamp env s, [])))"

definition onAudioEnd :: "AudioEnv \<Rightarrow> LiveServerMessage \<Rightarrow> step" where
  "onAudioEnd env m s =
     (case audioData m of
        None \<Rightarrow> (s, [])
      | Some d \<Rightarrow> (case outputAudioContext s of
                     None \<Rightarrow> (s, [])
                   | Some ctx \<Rightarrow> playStreamedAudioResume env d s))"

definition handleSessionMessageBegin :: "AudioEnv \<Rightarrow> LiveServerMessage \<Rightarrow> step" where
  "handleSessionMessageBegin env m =
     andThen (onInterrupted m)
       (andThen (onInputTranscription m)
          (andThen (onOutputTranscription m) (onAudioBegin env m)))"

definition handleSessionMessageEnd :: "AudioEnv \<Rightarrow> LiveServerMessage \<Rightarrow> step" where
  "handleSessionMessageEnd env m = andThen (onAudioEnd env m) (onTurnComplete m)"

text \<open>Halves of handlers in the order they run.\<close>

datatype Half = Begin AudioEnv LiveServerMessage | End AudioEnv LiveServerMessage

fun runHalf :: "Half \<Rightarrow> step" where
  "runHalf (Begin env m) s = handleSessionMessageBegin env m s"
| "runHalf (End env m) s = handleSessionMessageEnd env m s"

fun runHalves :: "Half list \<Rightarrow> step" where
  "runHalves [] s = (s, [])"
| "runHalves (h # hs) s = andThen (runHalf h) (runHalves hs) s"

text \<open>Inbound messages are handled in arrival order, each with the browser's answers.\<close>

fun handleAll :: "(AudioEnv \<times> LiveServerMessage) list \<Rightarrow> step" where
  "handleAll [] s = (s, [])"
| "handleAll ((env, m) # rest) s = andThen (handleSessionMessage env m) (handleAll rest) s"

section \<open>stopSession\<close>

text \<open>
  \<open>stopSession\<close> reads the \<open>state\<close> attribute of the two audio contexts. The browser
  owns that attribute, so the function takes its reading at the time of the call; the
  context fields themselves are never set to \<open>null\<close>.
\<close>

definition release :: "(nat \<Rightarrow> Event) \<Rightarrow> nat option \<Rightarrow> Event list" where
  "release ev r = (case r of None \<Rightarrow> [] | Some i \<Rightarrow> [ev i])"

definition closeIfOpen :: "(nat \<Rightarrow> AudioContextState) \<Rightarrow> nat option \<Rightarrow> Event list" where
  "closeIfOpen ctxState r =
     (case r of None \<Rightarrow> [] | Some i \<Rightarrow> if ctxState i \<noteq> Closed then [ContextClose i] else [])"

text \<open>Lines 141 to 170.\<close>

definition stopSession :: "(nat \<Rightarrow> AudioContextState) \<Rightarrow> step" where
  "stopSession ctxState s =
     (s\<lparr>session := None, mediaStream := None, source := None, scriptProcessor := None,
        outputSources := [], sessionPromise := None\<rparr>,
      PlayCue CueStop
        # release SessionClose (session s)
        @ release TracksStop (mediaStream s)
        @ release SourceDisconnect (source s)
        @ release ProcessorDisconnect (scriptProcessor s)
        @ closeIfOpen ctxState (inputAudioContext s)
        @ closeIfOpen ctxState (outputAudioContext s)
        @ map SourceStop (outputSources s))"

section \<open>handleSessionOpen\<close>

datatype MicOutcome = Granted nat | Denied

definition micDenied :: string where
  "micDenied = ''Microphone access denied. Please enable it in your browser settings.''"

text \<open>Lines 173 to 176, up to the suspension at \<open>getUserMedia\<close>.\<close>

definition handleSessionOpenBegin :: step where
  "handleSessionOpenBegin s = (s, [StatusUpdate LISTENING None, PlayCue CueStart, GetUserMedia])"

text \<open>
  Lines 176 to 199, from the answer of \<open>getUserMedia\<close> on; \<open>srcNode\<close> and \<open>procNode\<close>
  are the nodes the input context creates.
\<close>

definition handleSessionOpenResume ::
  "(nat \<Rightarrow> AudioContextState) \<Rightarrow> MicOutcome \<Rightarrow> nat \<Rightarrow> nat \<Rightarrow> step" where
  "handleSessionOpenResume ctxState outcome srcNode procNode s =
     (case outcome of
        Denied \<Rightarrow>
          (case stopSession ctxState s of
             (s1, e1) \<Rightarrow> (s1, StatusUpdate ERROR (Some micDenied) # e1))
      | Granted stream \<Rightarrow>
          (let s1 = s\<lparr>mediaStream := Some stream\<rparr>
           in (case inputAudioContext s1 of
                 None \<Rightarrow> (s1, [])
               | Some ctx \<Rightarrow>
                   (s1\<lparr>source := Some srcNode, scriptProcessor := Some procNode\<rparr>,
                    [CaptureConnect srcNode procNode]))))"

definition handleSessionOpen ::
  "(nat \<Rightarrow> AudioContextState) \<Rightarrow> MicOutcome \<Rightarrow> nat \<Rightarrow> nat \<Rightarrow> step" where
  "handleSessionOpen ctxState outcome srcNode procNode =
     andThen handleSessionOpenBegin (handleSessionOpenResume ctxState outcome srcNode procNode)"

section \<open>The capture callback and the connect promise\<close>

text \<open>
  The promise \<open>connect\<close> returns is an object of its own: \<open>then\<close> on a pending promise
  stores the reaction in the promise, and the reaction runs when the promise is
  fulfilled, whatever the field \<open>sessionPromise\<close> holds by then. \<open>Pending\<close> carries the
  chunks of the stored reactions in the order they were registered.
\<close>

datatype Promise = Pending "string list" | Fulfilled nat | Rejected

text \<open>Lines 182 to 190; \<open>pcmBlob\<close> is the chunk \<open>createBlob\<close> made of the frame.\<close>

definition onaudioprocess ::
  "(nat \<Rightarrow> Promise) \<Rightarrow> GeminiService \<Rightarrow> string \<Rightarrow> (nat \<Rightarrow> Promise) \<times> Event list" where
  "onaudioprocess heap s pcmBlob =
     (case sessionPromise s of
        None \<Rightarrow> (heap, [])
      | Some p \<Rightarrow>
          (case heap p of
             Pending rs \<Rightarrow> (heap(p := Pending (rs @ [pcmBlob])), [])
           | Fulfilled h \<Rightarrow> (heap, [SendRealtimeInput h pcmBlob])
           | Rejected \<Rightarrow> (heap, [])))"

text \<open>The transport resolves the promise \<open>p\<close> with the session \<open>h\<close>.\<close>

definition resolveConnect ::
  "(nat \<Rightarrow> Promise) \<Rightarrow> nat \<Rightarrow> nat \<Rightarrow> (nat \<Rightarrow> Promise) \<times> Event list" where
  "resolveConnect heap p h =
     (case heap p of
        Pending rs \<Rightarrow> (heap(p := Fulfilled h), map (SendRealtimeInput h) rs)
      | Fulfilled h' \<Rightarrow> (heap, [])
      | Rejected \<Rightarrow> (heap, []))"

section \<open>handleSessionError\<close>

text \<open>
  \<open>toLowerCase\<close> on the letters A to Z; the messages are taken to be ASCII text.
\<close>

definition lowerChar :: "char \<Rightarrow> char" where
  "lowerChar c =
     (let n = (of_char c :: nat) in if 65 \<le> n \<and> n \<le> 90 then char_of (n + 32) else c)"

definition toLowerCase :: "string \<Rightarrow> string" where
  "toLowerCase s = map lowerChar s"

text \<open>\<open>hay.includes(needle)\<close>: the needle starts at some position of the hay.\<close>

fun includes' :: "string \<Rightarrow> string \<Rightarrow> bool" where
  "includes' [] needle = (needle = [])"
| "includes' (c # cs) needle = (prefix needle (c # cs) \<or> includes' cs needle)"

definition msgUnexpected :: string where
  "msgUnexpected = ''An unexpected error occurred with the AI service.''"

definition msgApiKey :: string where
  "msgApiKey = ''The API key is invalid. Please check your configuration.''"

definition msgNetwork :: string where
  "msgNetwork = ''A network error occurred. Please check your internet connection.''"

definition msgPermission :: string where
  "msgPermission = ''Could not connect to the AI service due to a permission issue.''"

definition msgQuota :: string where
  "msgQuota = ''You have exceeded your API quota. Please check your account.''"

text \<open>Lines 280 to 292.\<close>

definition userMessage :: "string \<Rightarrow> string" where
  "userMessage eMessage =
     (if eMessage \<noteq> []
      then (let message = toLowerCase eMessage
            in if includes' message ''api key not valid'' then msgApiKey
               else if includes' message ''network'' \<or> includes' message ''failed to fetch''
                 then msgNetwork
               else if includes' message ''permission denied'' then msgPermission
               else if includes' message ''quota'' then msgQuota
               else msgUnexpected)
      else msgUnexpected)"

text \<open>Lines 277 to 295.\<close>

definition handleSessionError :: "(nat \<Rightarrow> AudioContextState) \<Rightarrow> string \<Rightarrow> step" where
  "handleSessionError ctxState eMessage s =
     (case stopSession ctxState s of
        (s1, e1) \<Rightarrow> (s1, PlayCue CueError # StatusUpdate ERROR (Some (userMessage eMessage)) # e1))"

section \<open>Observations on a trace\<close>

text \<open>The turns handed to \<open>onTranscriptUpdate\<close>, in order.\<close>

fun turnsOf :: "Event list \<Rightarrow> TranscriptTurn list" where
  "turnsOf [] = []"
| "turnsOf (TranscriptUpdate t # es) = t # turnsOf es"
| "turnsOf (e # es) = turnsOf es"

text \<open>The statuses handed to \<open>onStatusUpdate\<close>, with their messages, in order.\<close>

fun statusesOf :: "Event list \<Rightarrow> (AppStatus \<times> string option) list" where
  "statusesOf [] = []"
| "statusesOf (StatusUpdate st msg # es) = (st, msg) # statusesOf es"
| "statusesOf (e # es) = statusesOf es"

text \<open>The scheduled chunks: node, start time and duration of every \<open>source.start\<close>.\<close>

fun startsOf :: "Event list \<Rightarrow> (nat \<times> real \<times> real) list" where
  "startsOf [] = []"
| "startsOf (SourceStart n t d # es) = (n, t, d) # startsOf es"
| "startsOf (e # es) = startsOf es"

definition nonFinalTexts :: "Author \<Rightarrow> Event list \<Rightarrow> string list" where
  "nonFinalTexts a es =
     map text' (filter (\<lambda>t. author t = a \<and> \<not> isFinal t) (turnsOf es))"

definition finalTurns :: "Event list \<Rightarrow> TranscriptTurn list" where
  "finalTurns es = filter isFinal (turnsOf es)"

text \<open>
  The releases of owned resources: closing the transport session, stopping the tracks of
  the media stream, disconnecting the source node and the script processor, closing an
  audio context, stopping a live output.
\<close>

fun isRelease :: "Event \<Rightarrow> bool" where
  "isRelease (SessionClose h) = True"
| "isRelease (TracksStop m) = True"
| "isRelease (SourceDisconnect n) = True"
| "isRelease (ProcessorDisconnect n) = True"
| "isRelease (ContextClose c) = True"
| "isRelease (SourceStop n) = True"
| "isRelease e = False"


definition releasesOf :: "Event list \<Rightarrow> Event list" where
  "releasesOf es = filter isRelease es"

section \<open>Calls in sequence\<close>

text \<open>The capture callback on a sequence of chunks, in capture order.\<close>

fun captureAll ::
  "(nat \<Rightarrow> Promise) \<Rightarrow> GeminiService \<Rightarrow> string list \<Rightarrow> (nat \<Rightarrow> Promise) \<times> Event list" where
  "captureAll heap s [] = (heap, [])"
| "captureAll heap s (f # fs) =
     (case onaudioprocess heap s f of
        (heap1, e1) \<Rightarrow> (case captureAll heap1 s fs of (heap2, e2) \<Rightarrow> (heap2, e1 @ e2)))"

text \<open>
  The browser's side of \<open>close\<close>: once \<open>close\<close> has been called on a context, the
  \<open>state\<close> of that context reads \<open>closed\<close>; \<open>observeCloses\<close> gives the readings after
  the calls of a trace. A \<open>close\<close> called on a context that already reads \<open>closed\<close> is
  refused by the browser (its promise is rejected); \<open>failures\<close> lists the refused calls
  of a trace. The other releases cannot fail: the stops are made on nodes of the live set,
  which have all been started.
\<close>

fun observeCloses :: "(nat \<Rightarrow> AudioContextState) \<Rightarrow> Event list \<Rightarrow> (nat \<Rightarrow> AudioContextState)" where
  "observeCloses st [] = st"
| "observeCloses st (ContextClose c # es) = observeCloses (st(c := Closed)) es"
| "observeCloses st (e # es) = observeCloses st es"

fun failures :: "(nat \<Rightarrow> AudioContextState) \<Rightarrow> Event list \<Rightarrow> Event list" where
  "failures st [] = []"
| "failures st (ContextClose c # es) =
     (if st c = Closed then [ContextClose c] else []) @ failures (st(c := Closed)) es"
| "failures st (e # es) = failures st es"

text \<open>
  \<open>stopSession\<close> twice in succession on the same object: the second call reads the
  contexts as the first call's closes have left them.
\<close>

definition stopTwice :: "(nat \<Rightarrow> AudioContextState) \<Rightarrow> step" where
  "stopTwice st s =
     (case stopSession st s of
        (s1, e1) \<Rightarrow> (case stopSession (observeCloses st e1) s1 of (s2, e2) \<Rightarrow> (s2, e1 @ e2)))"

section \<open>The behaviour as the specification words it\<close>

text \<open>
  The specification's reading of the bot side of the reconciler: the deltas of the turn in
  progress are kept as a list \<open>ds\<close>; an interruption and a turn-complete close the turn;
  after each delta the text shown is the concatenation of the deltas so far.
\<close>

fun specBotTexts :: "string list \<Rightarrow> LiveServerMessage list \<Rightarrow> string list" where
  "specBotTexts ds [] = []"
| "specBotTexts ds (m # ms) =
     (let ds0 = (if interrupted m then [] else ds)
      in (case outputTranscription m of
            None \<Rightarrow> specBotTexts (if turnComplete m then [] else ds0) ms
          | Some d \<Rightarrow> concat (ds0 @ [d]) # specBotTexts (if turnComplete m then [] else ds0 @ [d]) ms))"

text \<open>The bot deltas and the user partials of a sequence of messages, in arrival order.\<close>

definition botDeltas :: "LiveServerMessage list \<Rightarrow> string list" where
  "botDeltas ms = List.map_filter outputTranscription ms"

definition userPartials :: "LiveServerMessage list \<Rightarrow> string list" where
  "userPartials ms = List.map_filter inputTranscription ms"

text \<open>No message of the sequence closes the turn.\<close>

definition sameTurn :: "LiveServerMessage list \<Rightarrow> bool" where
  "sameTurn ms = list_all (\<lambda>m. \<not> interrupted m \<and> \<not> turnComplete m) ms"

text \<open>
  What the specification says an interruption does to the state (live set emptied,
  watermark zero, a non-empty bot accumulator and its grounding cleared) and what it emits
  besides the stops (the bot turn, final, with its grounding).
\<close>

definition interruptedState :: "GeminiService \<Rightarrow> GeminiService" where
  "interruptedState s =
     (if currentOutputTranscription s \<noteq> []
      then s\<lparr>outputSources := [], nextStartTime := 0, currentOutputTranscription := [],
             currentGrounding := []\<rparr>
      else s\<lparr>outputSources := [], nextStartTime := 0\<rparr>)"

definition interruptedFlush :: "GeminiService \<Rightarrow> Event list" where
  "interruptedFlush s =
     (if currentOutputTranscription s \<noteq> []
      then [TranscriptUpdate \<lparr> author = Bot, text' = currentOutputTranscription s, isFinal = True,
                               grounding = Some (currentGrounding s) \<rparr>]
      else [])"

text \<open>
  What the specification says a turn-complete emits: a final turn for each author whose
  accumulator is not empty, the user's first.
\<close>

definition turnCompleteFlush :: "GeminiService \<Rightarrow> Event list" where
  "turnCompleteFlush s =
     (if currentInputTranscription s \<noteq> []
      then [TranscriptUpdate \<lparr> author = User, text' = currentInputTranscription s, isFinal = True,
                               grounding = None \<rparr>]
      else [])
     @ (if currentOutputTranscription s \<noteq> []
        then [TranscriptUpdate \<lparr> author = Bot, text' = currentOutputTranscription s, isFinal = True,
                                 grounding = Some (currentGrounding s) \<rparr>]
        else [])"

text \<open>
  A list of sources is resolved when no uri is the marker \<open>#\<close> or empty; a turn is, when
  its grounding, if it has one, is. Grounding goes with the bot turns and only with them.
\<close>

definition resolved :: "GroundingSource list \<Rightarrow> bool" where
  "resolved gs = list_all (\<lambda>g. uri g \<noteq> ''#'' \<and> uri g \<noteq> []) gs"

definition turnResolved :: "TranscriptTurn \<Rightarrow> bool" where
  "turnResolved t = (case grounding t of None \<Rightarrow> True | Some gs \<Rightarrow> resolved gs)"

definition carriesGrounding :: "TranscriptTurn \<Rightarrow> bool" where
  "carriesGrounding t = ((author t = Bot) = (grounding t \<noteq> None))"

text \<open>
  The decoded buffer of the message's chunk has a duration that is not negative, as the
  duration of an audio buffer is; a sequence is steady when that holds of every message and
  none carries an interruption.
\<close>

definition nonNegativeAudio :: "AudioEnv \<Rightarrow> LiveServerMessage \<Rightarrow> bool" where
  "nonNegativeAudio env m =
     (case audioData m of None \<Rightarrow> True | Some a \<Rightarrow> 0 \<le> bufferDuration env a)"

definition steady :: "(AudioEnv \<times> LiveServerMessage) list \<Rightarrow> bool" where
  "steady ims = list_all (\<lambda>(env, m). \<not> interrupted m \<and> nonNegativeAudio env m) ims"

text \<open>
  A half is quiet when it cannot touch the watermark: its message carries no chunk and,
  for a first half, no interruption. It is calm when it cannot lower the watermark: a first
  half without interruption, a second half whose buffer has a duration that is not
  negative.
\<close>

fun quietHalf :: "Half \<Rightarrow> bool" where
  "quietHalf (Begin env m) = (\<not> interrupted m \<and> audioData m = None)"
| "quietHalf (End env m) = (audioData m = None)"

fun calmHalf :: "Half \<Rightarrow> bool" where
  "calmHalf (Begin env m) = (\<not> interrupted m)"
| "calmHalf (End env m) = nonNegativeAudio env m"

text \<open>
  The bot text and the grounding buffer as they stand in the handling of a message once
  its interruption and its delta have been applied: what a bot turn emitted from then on
  must carry.
\<close>

definition textInForce :: "LiveServerMessage \<Rightarrow> GeminiService \<Rightarrow> string" where
  "textInForce m s =
     (if interrupted m then [] else currentOutputTranscription s)
     @ (case outputTranscription m of None \<Rightarrow> [] | Some d \<Rightarrow> d)"

definition groundingInForce :: "LiveServerMessage \<Rightarrow> GeminiService \<Rightarrow> GroundingSource list" where
  "groundingInForce m s =
     (let kept = (if interrupted m \<and> currentOutputTranscription s \<noteq> [] then []
                  else currentGrounding s)
      in case outputTranscription m of
           None \<Rightarrow> kept
         | Some d \<Rightarrow> (case groundingChunks m of None \<Rightarrow> kept
                       | Some chunks \<Rightarrow> resolveGrounding chunks))"

text \<open>
  The input and the output context are two objects: the source creates each with its own
  \<open>new\<close> (lines 45, 87 and 89).
\<close>

definition contextsDiffer :: "GeminiService \<Rightarrow> bool" where
  "contextsDiffer s = (inputAudioContext s = None \<or> inputAudioContext s \<noteq> outputAudioContext s)"


section \<open>Initial state and sample inputs\<close>

text \<open>The field initialisers, lines 19 to 33.\<close>

definition initialService :: GeminiService where
  "initialService =
     \<lparr> session = None, sessionPromise = None, inputAudioContext = None,
       outputAudioContext = None, mediaStream = None, scriptProcessor = None, source = None,
       outputSources = [], nextStartTime = 0, currentInputTranscription = [],
       currentOutputTranscription = [], currentGrounding = [] \<rparr>"

text \<open>
  States on the way: the transport is opening; a session is fully set up with two outputs
  scheduled; the output context exists and nothing is scheduled; a bot turn is in progress
  with one source attached and two outputs scheduled.
\<close>

definition openingService :: GeminiService where
  "openingService =
     initialService\<lparr>sessionPromise := Some 0, inputAudioContext := Some 1,
       outputAudioContext := Some 2\<rparr>"

definition liveService :: GeminiService where
  "liveService =
     initialService\<lparr>session := Some 5, sessionPromise := Some 0, inputAudioContext := Some 1,
       outputAudioContext := Some 2, mediaStream := Some 6, scriptProcessor := Some 9,
       source := Some 8, outputSources := [3, 4], nextStartTime := 9\<rparr>"

definition playingService :: GeminiService where
  "playingService = initialService\<lparr>outputAudioContext := Some 1\<rparr>"

definition busyService :: GeminiService where
  "busyService =
     initialService\<lparr>outputAudioContext := Some 1, outputSources := [3, 4], nextStartTime := 9,
       currentInputTranscription := ''hi'', currentOutputTranscription := ''Hel'',
       currentGrounding := [\<lparr> title = ''Source'', uri = ''https://example.org'' \<rparr>]\<rparr>"

definition scheduledService :: GeminiService where
  "scheduledService = initialService\<lparr>outputAudioContext := Some 1, nextStartTime := 9\<rparr>"

text \<open>What the browser answers: the clock at 5, node 7, buffers of 2 seconds.\<close>

definition sampleEnv :: AudioEnv where
  "sampleEnv = \<lparr> currentTime = 5, newSource = 7, bufferDuration = (\<lambda>b. 2) \<rparr>"

definition allRunning :: "nat \<Rightarrow> AudioContextState" where
  "allRunning c = Running"


definition pendingHeap :: "nat \<Rightarrow> Promise" where
  "pendingHeap p = Pending []"

text \<open>Messages and runs of messages.\<close>

definition emptyMessage :: LiveServerMessage where
  "emptyMessage =
     \<lparr> interrupted = False, inputTranscription = None, outputTranscription = None,
       groundingChunks = None, modelTurn = None, turnComplete = False \<rparr>"

definition bargeIn :: LiveServerMessage where
  "bargeIn = emptyMessage\<lparr>interrupted := True, modelTurn := Some [''AAAA'']\<rparr>"

definition pureInterrupt :: LiveServerMessage where
  "pureInterrupt = emptyMessage\<lparr>interrupted := True\<rparr>"

definition endOfTurn :: LiveServerMessage where
  "endOfTurn = emptyMessage\<lparr>turnComplete := True\<rparr>"

definition chunkMessage :: LiveServerMessage where
  "chunkMessage = emptyMessage\<lparr>modelTurn := Some [''AAAA'']\<rparr>"

definition lastDelta :: LiveServerMessage where
  "lastDelta = emptyMessage\<lparr>outputTranscription := Some ''lo'', turnComplete := True\<rparr>"

definition sampleRun :: "(AudioEnv \<times> LiveServerMessage) list" where
  "sampleRun =
     [(sampleEnv, emptyMessage\<lparr>inputTranscription := Some ''hello''\<rparr>),
      (sampleEnv, emptyMessage\<lparr>outputTranscription := Some ''H''\<rparr>),
      (sampleEnv, emptyMessage\<lparr>inputTranscription := Some ''hello you''\<rparr>),
      (sampleEnv, emptyMessage\<lparr>outputTranscription := Some ''i''\<rparr>),
      (sampleEnv, emptyMessage\<lparr>outputTranscription := Some '' there''\<rparr>)]"

definition audioRun :: "(AudioEnv \<times> LiveServerMessage) list" where
  "audioRun =
     [(sampleEnv, emptyMessage\<lparr>modelTurn := Some [''AAAA'']\<rparr>),
      (sampleEnv, emptyMessage\<lparr>modelTurn := Some [''BBBB'']\<rparr>)]"

definition quietHalves :: "Half list" where
  "quietHalves =
     [Begin sampleEnv (emptyMessage\<lparr>inputTranscription := Some ''hello''\<rparr>),
      End sampleEnv (emptyMessage\<lparr>inputTranscription := Some ''hello''\<rparr>)]"

definition sampleChunks :: "GroundingChunk list" where
  "sampleChunks =
     [\<lparr> web = Some \<lparr> refTitle = Some ''Docs'', refUri = Some ''https://a.example'' \<rparr>, maps' = None \<rparr>,
      \<lparr> web = Some \<lparr> refTitle = Some ''Lost'', refUri = None \<rparr>, maps' = None \<rparr>,
      \<lparr> web = None, maps' = Some \<lparr> refTitle = None, refUri = Some ''geo:1'' \<rparr> \<rparr>,
      \<lparr> web = Some \<lparr> refTitle = Some ''Blank'', refUri = Some [] \<rparr>, maps' = None \<rparr>]"

definition groundedRun :: "(AudioEnv \<times> LiveServerMessage) list" where
  "groundedRun =
     [(sampleEnv, emptyMessage\<lparr>outputTranscription := Some ''See '',
                              groundingChunks := Some sampleChunks\<rparr>),
      (sampleEnv, emptyMessage\<lparr>outputTranscription := Some ''this'', turnComplete := True\<rparr>)]"

section \<open>Supporting lemmas\<close>

subsection \<open>The scheduling step with nothing in between\<close>

lemma playStreamedAudio_atomic:
  "playStreamedAudio env base64Audio s =
     (case outputAudioContext s of
        None \<Rightarrow> (s, [])
      | Some ctx \<Rightarrow>
          (let startAt = max (nextStartTime s) (currentTime env);
               d = bufferDuration env base64Audio
           in (s\<lparr>nextStartTime := startAt + d,
                  outputSources := setAdd (newSource env) (outputSources s)\<rparr>,
               [SourceStart (newSource env) startAt d])))"
  by (simp add: playStreamedAudio_def playStreamedAudioClamp_def playStreamedAudioResume_def
      Let_def split: option.splits)

subsection \<open>Sequencing, and the turns each block emits\<close>

lemma fst_andThen: "fst (andThen f g s) = fst (g (fst (f s)))"
  by (simp add: andThen_def split: prod.splits)

lemma snd_andThen: "snd (andThen f g s) = snd (f s) @ snd (g (fst (f s)))"
  by (simp add: andThen_def split: prod.splits)

lemma turnsOf_append: "turnsOf (xs @ ys) = turnsOf xs @ turnsOf ys"
  by (induction xs rule: turnsOf.induct) simp_all

lemma nonFinalTexts_append: "nonFinalTexts a (xs @ ys) = nonFinalTexts a xs @ nonFinalTexts a ys"
  by (simp add: nonFinalTexts_def turnsOf_append)

lemma turnsOf_SourceStop: "turnsOf (map SourceStop ns) = []"
  by (induction ns) simp_all

lemma turnsOf_onInterrupted: "turnsOf (snd (onInterrupted m s)) =
   (if interrupted m \<and> currentOutputTranscription s \<noteq> [] then [botTurn s True] else [])"
  by (simp add: onInterrupted_def finalizeBot_def botTurn_def turnsOf_append turnsOf_SourceStop split: prod.splits)

lemma turnsOf_onInputTranscription: "turnsOf (snd (onInputTranscription m s)) =
   (case inputTranscription m of None \<Rightarrow> []
    | Some t \<Rightarrow> [\<lparr> author = User, text' = t, isFinal = False, grounding = None \<rparr>])"
  by (simp add: onInputTranscription_def userTurn_def split: option.splits)

lemma turnsOf_onOutputTranscription: "turnsOf (snd (onOutputTranscription m s)) =
   (case outputTranscription m of None \<Rightarrow> []
    | Some d \<Rightarrow> [\<lparr> author = Bot, text' = currentOutputTranscription s @ d, isFinal = False,
         grounding = Some (case groundingChunks m of None \<Rightarrow> currentGrounding s
                           | Some chunks \<Rightarrow> resolveGrounding chunks) \<rparr>])"
  by (simp add: onOutputTranscription_def botTurn_def split: option.splits)

lemma turnsOf_onAudio: "turnsOf (snd (onAudio env m s)) = []"
  by (simp add: onAudio_def playStreamedAudio_atomic Let_def split: option.splits)

lemma turnsOf_onTurnComplete: "turnsOf (snd (onTurnComplete m s)) =
   (if turnComplete m then
      (if currentInputTranscription s \<noteq> [] then [userTurn s True] else []) @
      (if currentOutputTranscription s \<noteq> [] then [botTurn s True] else [])
    else [])"
  by (simp add: onTurnComplete_def andThen_def finalizeUser_def finalizeBot_def botTurn_def userTurn_def split: prod.splits)


subsection \<open>The state each block leaves\<close>

lemma fst_finalizeBot: "fst (finalizeBot s) =
   (if currentOutputTranscription s \<noteq> []
    then s\<lparr>currentOutputTranscription := [], currentGrounding := []\<rparr> else s)"
  by (simp add: finalizeBot_def)

lemma fst_finalizeUser: "fst (finalizeUser s) =
   (if currentInputTranscription s \<noteq> [] then s\<lparr>currentInputTranscription := []\<rparr> else s)"
  by (simp add: finalizeUser_def)

lemma fst_onInterrupted: "fst (onInterrupted m s) =
   (if interrupted m then fst (finalizeBot (s\<lparr>outputSources := [], nextStartTime := 0\<rparr>)) else s)"
  by (simp add: onInterrupted_def split: prod.splits)

lemma fst_onInputTranscription: "fst (onInputTranscription m s) =
   (case inputTranscription m of None \<Rightarrow> s | Some t \<Rightarrow> s\<lparr>currentInputTranscription := t\<rparr>)"
  by (simp add: onInputTranscription_def Let_def split: option.splits)

lemma fst_onOutputTranscription: "fst (onOutputTranscription m s) =
   (case outputTranscription m of None \<Rightarrow> s
    | Some d \<Rightarrow> s\<lparr>currentOutputTranscription := currentOutputTranscription s @ d,
                  currentGrounding := (case groundingChunks m of None \<Rightarrow> currentGrounding s
                           | Some chunks \<Rightarrow> resolveGrounding chunks)\<rparr>)"
  by (simp add: onOutputTranscription_def Let_def split: option.splits)

lemma fst_onTurnComplete: "fst (onTurnComplete m s) =
   (if turnComplete m then fst (finalizeBot (fst (finalizeUser s))) else s)"
  by (cases "andThen finalizeUser finalizeBot s")
    (use fst_andThen [of finalizeUser finalizeBot s] in \<open>simp add: onTurnComplete_def\<close>)

lemma acc_onAudio:
  "currentOutputTranscription (fst (onAudio env m s)) = currentOutputTranscription s"
  "currentInputTranscription (fst (onAudio env m s)) = currentInputTranscription s"
  "currentGrounding (fst (onAudio env m s)) = currentGrounding s"
  by (simp_all add: onAudio_def playStreamedAudio_atomic Let_def split: option.splits)

lemma acc_onInterrupted:
  "currentOutputTranscription (fst (onInterrupted m s)) =
     (if interrupted m then [] else currentOutputTranscription s)"
  "currentInputTranscription (fst (onInterrupted m s)) = currentInputTranscription s"
  by (simp_all add: fst_onInterrupted fst_finalizeBot)

lemma acc_onInputTranscription:
  "currentOutputTranscription (fst (onInputTranscription m s)) = currentOutputTranscription s"
  "currentInputTranscription (fst (onInputTranscription m s)) =
     (case inputTranscription m of None \<Rightarrow> currentInputTranscription s | Some t \<Rightarrow> t)"
  "currentGrounding (fst (onInputTranscription m s)) = currentGrounding s"
  by (simp_all add: fst_onInputTranscription split: option.splits)

lemma acc_onOutputTranscription:
  "currentOutputTranscription (fst (onOutputTranscription m s)) =
     currentOutputTranscription s @ (case outputTranscription m of None \<Rightarrow> [] | Some d \<Rightarrow> d)"
  "currentInputTranscription (fst (onOutputTranscription m s)) = currentInputTranscription s"
  by (simp_all add: fst_onOutputTranscription split: option.splits)

lemma acc_onTurnComplete:
  "currentOutputTranscription (fst (onTurnComplete m s)) =
     (if turnComplete m then [] else currentOutputTranscription s)"
  "currentInputTranscription (fst (onTurnComplete m s)) =
     (if turnComplete m then [] else currentInputTranscription s)"
  by (simp_all add: fst_onTurnComplete fst_finalizeBot fst_finalizeUser)

subsection \<open>One message: texts and accumulators\<close>

lemma turnsOf_message:
  "turnsOf (snd (handleSessionMessage env m s)) =
     turnsOf (snd (onInterrupted m s))
     @ turnsOf (snd (onInputTranscription m (fst (onInterrupted m s))))
     @ turnsOf (snd (onOutputTranscription m (fst (onInputTranscription m (fst (onInterrupted m s))))))
     @ turnsOf (snd (onTurnComplete m (fst (onAudio env m (fst (onOutputTranscription m
          (fst (onInputTranscription m (fst (onInterrupted m s))))))))))"
  by (simp add: handleSessionMessage_def snd_andThen fst_andThen turnsOf_append turnsOf_onAudio)

lemma message_bot_acc:
  "currentOutputTranscription (fst (handleSessionMessage env m s)) =
     (if turnComplete m then []
      else (if interrupted m then [] else currentOutputTranscription s)
           @ (case outputTranscription m of None \<Rightarrow> [] | Some d \<Rightarrow> d))"
  by (simp add: handleSessionMessage_def fst_andThen acc_onTurnComplete acc_onAudio
      acc_onOutputTranscription acc_onInputTranscription acc_onInterrupted)

lemma nonFinal_filter_simps:
  "author (botTurn s fin) = Bot" "isFinal (botTurn s fin) = fin"
  "text' (botTurn s fin) = currentOutputTranscription s"
  "grounding (botTurn s fin) = Some (currentGrounding s)"
  "author (userTurn s fin) = User" "isFinal (userTurn s fin) = fin"
  "text' (userTurn s fin) = currentInputTranscription s"
  "grounding (userTurn s fin) = None"
  by (simp_all add: botTurn_def userTurn_def)

lemma message_user_text:
  "nonFinalTexts User (snd (handleSessionMessage env m s)) =
     (case inputTranscription m of None \<Rightarrow> [] | Some t \<Rightarrow> [t])"
  by (simp add: nonFinalTexts_def turnsOf_message turnsOf_onInterrupted turnsOf_onInputTranscription
      turnsOf_onOutputTranscription turnsOf_onTurnComplete nonFinal_filter_simps
      split: option.splits)

lemma message_bot_text:
  "nonFinalTexts Bot (snd (handleSessionMessage env m s)) =
     (case outputTranscription m of None \<Rightarrow> []
      | Some d \<Rightarrow> [(if interrupted m then [] else currentOutputTranscription s) @ d])"
  by (simp add: nonFinalTexts_def turnsOf_message turnsOf_onInterrupted turnsOf_onInputTranscription
      turnsOf_onOutputTranscription turnsOf_onTurnComplete nonFinal_filter_simps
      acc_onInputTranscription acc_onInterrupted
      split: option.splits)

subsection \<open>A sequence of messages: the partial texts\<close>

lemma handleAll_user: "nonFinalTexts User (snd (handleAll ims s)) = userPartials (map snd ims)"
proof (induction ims arbitrary: s)
  case Nil
  show ?case by (simp add: nonFinalTexts_def userPartials_def)
next
  case (Cons im ims)
  obtain env m where im: "im = (env, m)" by (cases im)
  show ?case
    using Cons.IH [of "fst (handleSessionMessage env m s)"]
    by (simp add: im snd_andThen nonFinalTexts_append message_user_text userPartials_def
        split: option.splits)
qed

lemma handleAll_bot:
  "currentOutputTranscription s = concat ds \<Longrightarrow>
   nonFinalTexts Bot (snd (handleAll ims s)) = specBotTexts ds (map snd ims)"
proof (induction ims arbitrary: s ds)
  case Nil
  show ?case by (simp add: nonFinalTexts_def)
next
  case (Cons im ims)
  obtain env m where im: "im = (env, m)" by (cases im)
  let ?s' = "fst (handleSessionMessage env m s)"
  let ?ds0 = "if interrupted m then [] else ds"
  let ?ds1 = "case outputTranscription m of None \<Rightarrow> ?ds0 | Some d \<Rightarrow> ?ds0 @ [d]"
  let ?ds' = "if turnComplete m then [] else ?ds1"
  have acc: "currentOutputTranscription ?s' = concat ?ds'"
    using Cons.prems by (simp add: message_bot_acc split: option.splits)
  have rest: "nonFinalTexts Bot (snd (handleAll ims ?s')) = specBotTexts ?ds' (map snd ims)"
    by (rule Cons.IH [OF acc])
  show ?case
    using rest Cons.prems
    by (simp add: im snd_andThen nonFinalTexts_append message_bot_text Let_def
        split: option.splits)
qed

lemma specBotTexts_sameTurn:
  "sameTurn ms \<Longrightarrow>
   specBotTexts ds ms =
     map (\<lambda>k. concat ds @ concat (take (Suc k) (botDeltas ms))) [0..<length (botDeltas ms)]"
proof (induction ms arbitrary: ds)
  case Nil
  show ?case by (simp add: botDeltas_def)
next
  case (Cons m ms)
  then have st: "sameTurn ms" and nb: "\<not> interrupted m" "\<not> turnComplete m"
    by (simp_all add: sameTurn_def)
  show ?case
  proof (cases "outputTranscription m")
    case None
    then show ?thesis
      using Cons.IH [OF st, of ds] nb by (simp add: botDeltas_def)
  next
    case (Some d)
    have "specBotTexts ds (m # ms) = concat (ds @ [d]) # specBotTexts (ds @ [d]) ms"
      using Some nb by simp
    also have "specBotTexts (ds @ [d]) ms =
        map (\<lambda>k. concat (ds @ [d]) @ concat (take (Suc k) (botDeltas ms))) [0..<length (botDeltas ms)]"
      by (rule Cons.IH [OF st])
    finally show ?thesis
      using Some by (simp add: botDeltas_def map_upt_Suc del: upt_Suc)
  qed
qed

subsection \<open>A message with the interruption flag\<close>

lemma startsOf_append: "startsOf (xs @ ys) = startsOf xs @ startsOf ys"
  by (induction xs rule: startsOf.induct) simp_all

lemma startsOf_SourceStop: "startsOf (map SourceStop ns) = []"
  by (induction ns) simp_all

lemma phases_ignore_interrupted:
  "onInputTranscription (m\<lparr>interrupted := b\<rparr>) = onInputTranscription m"
  "onOutputTranscription (m\<lparr>interrupted := b\<rparr>) = onOutputTranscription m"
  "onAudio env (m\<lparr>interrupted := b\<rparr>) = onAudio env m"
  "onTurnComplete (m\<lparr>interrupted := b\<rparr>) = onTurnComplete m"
  by (simp_all add: fun_eq_iff onInputTranscription_def onOutputTranscription_def onAudio_def
      audioData_def onTurnComplete_def Let_def split: option.splits)

lemma onInterrupted_False: "onInterrupted (m\<lparr>interrupted := False\<rparr>) s = (s, [])"
  by (simp add: onInterrupted_def)

lemma andThen_unit: "f s = (s, []) \<Longrightarrow> andThen f g s = g s"
  by (simp add: andThen_def split: prod.splits)

lemma andThen_pair: "f s = (s1, e1) \<Longrightarrow> andThen f g s = (fst (g s1), e1 @ snd (g s1))"
  by (simp add: andThen_def split: prod.splits)

lemma message_not_interrupted:
  "handleSessionMessage env (m\<lparr>interrupted := False\<rparr>) s =
     andThen (onInputTranscription m)
       (andThen (onOutputTranscription m) (andThen (onAudio env m) (onTurnComplete m))) s"
  by (simp add: handleSessionMessage_def phases_ignore_interrupted andThen_unit onInterrupted_False)

lemma onInterrupted_True:
  "interrupted m \<Longrightarrow>
   onInterrupted m s = (interruptedState s, map SourceStop (outputSources s) @ interruptedFlush s)"
  by (simp add: onInterrupted_def finalizeBot_def botTurn_def interruptedState_def interruptedFlush_def)

lemma message_interrupted:
  assumes "interrupted m"
  shows "handleSessionMessage env m s =
     (fst (handleSessionMessage env (m\<lparr>interrupted := False\<rparr>) (interruptedState s)),
      map SourceStop (outputSources s) @ interruptedFlush s
        @ snd (handleSessionMessage env (m\<lparr>interrupted := False\<rparr>) (interruptedState s)))"
  unfolding message_not_interrupted
  by (subst handleSessionMessage_def) (simp add: andThen_pair [OF onInterrupted_True [OF assms]])

lemma startsOf_phases:
  "startsOf (snd (onInputTranscription m s)) = []"
  "startsOf (snd (onOutputTranscription m s)) = []"
  "startsOf (snd (onTurnComplete m s)) = []"
  "startsOf (snd (finalizeBot s)) = []"
  "startsOf (snd (finalizeUser s)) = []"
  by (simp_all add: onInputTranscription_def onOutputTranscription_def onTurnComplete_def
      andThen_def finalizeBot_def finalizeUser_def Let_def split: option.splits prod.splits)

subsection \<open>The playback fields\<close>

lemma playback_finalizeBot:
  "nextStartTime (fst (finalizeBot s)) = nextStartTime s"
  "outputSources (fst (finalizeBot s)) = outputSources s"
  "outputAudioContext (fst (finalizeBot s)) = outputAudioContext s"
  by (simp_all add: finalizeBot_def)

lemma playback_finalizeUser:
  "nextStartTime (fst (finalizeUser s)) = nextStartTime s"
  "outputSources (fst (finalizeUser s)) = outputSources s"
  "outputAudioContext (fst (finalizeUser s)) = outputAudioContext s"
  by (simp_all add: finalizeUser_def)

lemma playback_onInputTranscription:
  "nextStartTime (fst (onInputTranscription m s)) = nextStartTime s"
  "outputSources (fst (onInputTranscription m s)) = outputSources s"
  "outputAudioContext (fst (onInputTranscription m s)) = outputAudioContext s"
  by (simp_all add: onInputTranscription_def Let_def split: option.splits)

lemma playback_onOutputTranscription:
  "nextStartTime (fst (onOutputTranscription m s)) = nextStartTime s"
  "outputSources (fst (onOutputTranscription m s)) = outputSources s"
  "outputAudioContext (fst (onOutputTranscription m s)) = outputAudioContext s"
  by (simp_all add: onOutputTranscription_def Let_def split: option.splits)

lemma playback_onTurnComplete:
  "nextStartTime (fst (onTurnComplete m s)) = nextStartTime s"
  "outputSources (fst (onTurnComplete m s)) = outputSources s"
  "outputAudioContext (fst (onTurnComplete m s)) = outputAudioContext s"
proof -
  obtain s1 e1 where p: "andThen finalizeUser finalizeBot s = (s1, e1)"
    by (cases "andThen finalizeUser finalizeBot s")
  then have s1: "s1 = fst (finalizeBot (fst (finalizeUser s)))"
    using fst_andThen [of finalizeUser finalizeBot s] by simp
  show "nextStartTime (fst (onTurnComplete m s)) = nextStartTime s"
    "outputSources (fst (onTurnComplete m s)) = outputSources s"
    "outputAudioContext (fst (onTurnComplete m s)) = outputAudioContext s"
    by (simp_all add: onTurnComplete_def p s1 playback_finalizeBot playback_finalizeUser)
qed

lemma playback_onInterrupted:
  "nextStartTime (fst (onInterrupted m s)) = (if interrupted m then 0 else nextStartTime s)"
  "outputSources (fst (onInterrupted m s)) = (if interrupted m then [] else outputSources s)"
  "outputAudioContext (fst (onInterrupted m s)) = outputAudioContext s"
  by (simp_all add: onInterrupted_def finalizeBot_def)

lemma onAudio_cases:
  "onAudio env m s =
     (case audioData m of None \<Rightarrow> (s, [])
      | Some a \<Rightarrow> (case outputAudioContext s of None \<Rightarrow> (s, [])
          | Some c \<Rightarrow> (s\<lparr>nextStartTime := max (nextStartTime s) (currentTime env) + bufferDuration env a,
                          outputSources := setAdd (newSource env) (outputSources s)\<rparr>,
                       [SourceStart (newSource env) (max (nextStartTime s) (currentTime env))
                          (bufferDuration env a)])))"
  by (simp add: onAudio_def playStreamedAudio_atomic Let_def split: option.splits)

lemma startsOf_onInterrupted: "startsOf (snd (onInterrupted m s)) = []"
  by (simp add: onInterrupted_def finalizeBot_def startsOf_append startsOf_SourceStop)

lemma startsOf_message:
  "startsOf (snd (handleSessionMessage env m s)) =
     (case audioData m of None \<Rightarrow> []
      | Some a \<Rightarrow> (case outputAudioContext s of None \<Rightarrow> []
          | Some c \<Rightarrow> [(newSource env,
                         max (if interrupted m then 0 else nextStartTime s) (currentTime env),
                         bufferDuration env a)]))"
  by (simp add: handleSessionMessage_def snd_andThen fst_andThen startsOf_append startsOf_phases
      onAudio_cases playback_onInputTranscription playback_onOutputTranscription
      playback_onInterrupted startsOf_onInterrupted
      split: option.splits)

lemma outputSources_message:
  "outputSources (fst (handleSessionMessage env m s)) =
     (case audioData m of None \<Rightarrow> (if interrupted m then [] else outputSources s)
      | Some a \<Rightarrow> (case outputAudioContext s of
            None \<Rightarrow> (if interrupted m then [] else outputSources s)
          | Some c \<Rightarrow> setAdd (newSource env) (if interrupted m then [] else outputSources s)))"
  by (simp add: handleSessionMessage_def fst_andThen playback_onTurnComplete
      onAudio_cases playback_onInputTranscription playback_onOutputTranscription
      playback_onInterrupted split: option.splits)

lemma nextStartTime_message:
  "nextStartTime (fst (handleSessionMessage env m s)) =
     (case audioData m of None \<Rightarrow> (if interrupted m then 0 else nextStartTime s)
      | Some a \<Rightarrow> (case outputAudioContext s of
            None \<Rightarrow> (if interrupted m then 0 else nextStartTime s)
          | Some c \<Rightarrow> max (if interrupted m then 0 else nextStartTime s) (currentTime env)
                        + bufferDuration env a))"
  by (simp add: handleSessionMessage_def fst_andThen playback_onTurnComplete
      onAudio_cases playback_onInputTranscription playback_onOutputTranscription
      playback_onInterrupted split: option.splits)

lemmas message_defs = handleSessionMessage_def andThen_def onInterrupted_def
  onInputTranscription_def onOutputTranscription_def onAudio_def audioData_def onTurnComplete_def
  playStreamedAudio_atomic finalizeBot_def finalizeUser_def botTurn_def userTurn_def setAdd_def

subsection \<open>The watermark\<close>

lemma nextStartTime_playStreamedAudio:
  "nextStartTime (fst (playStreamedAudio env a s)) =
     (case outputAudioContext s of None \<Rightarrow> nextStartTime s
      | Some c \<Rightarrow> max (nextStartTime s) (currentTime env) + bufferDuration env a)"
  by (simp add: playStreamedAudio_atomic Let_def split: option.splits)

lemma message_monotone:
  "\<not> interrupted m \<Longrightarrow> nonNegativeAudio env m \<Longrightarrow>
   nextStartTime s \<le> nextStartTime (fst (handleSessionMessage env m s))"
  by (auto simp add: nextStartTime_message nonNegativeAudio_def split: option.splits)

lemma handleAll_monotone:
  "steady ims \<Longrightarrow> nextStartTime s \<le> nextStartTime (fst (handleAll ims s))"
proof (induction ims arbitrary: s)
  case Nil
  show ?case by simp
next
  case (Cons im ims)
  obtain env m where im: "im = (env, m)" by (cases im)
  from Cons.prems im have here: "\<not> interrupted m" "nonNegativeAudio env m" and rest: "steady ims"
    by (simp_all add: steady_def)
  have "nextStartTime s \<le> nextStartTime (fst (handleSessionMessage env m s))"
    by (rule message_monotone [OF here])
  also have "\<dots> \<le> nextStartTime (fst (handleAll ims (fst (handleSessionMessage env m s))))"
    by (rule Cons.IH [OF rest])
  finally show ?case by (simp add: im fst_andThen)
qed

subsection \<open>A message with the turn-complete flag\<close>

lemma andThen_assoc: "andThen (andThen f g) h s = andThen f (andThen g h) s"
  by (simp add: andThen_def split: prod.splits)

lemma phases_ignore_turnComplete:
  "onInterrupted (m\<lparr>turnComplete := b\<rparr>) = onInterrupted m"
  "onInputTranscription (m\<lparr>turnComplete := b\<rparr>) = onInputTranscription m"
  "onOutputTranscription (m\<lparr>turnComplete := b\<rparr>) = onOutputTranscription m"
  "onAudio env (m\<lparr>turnComplete := b\<rparr>) = onAudio env m"
  by (simp_all add: fun_eq_iff onInterrupted_def onInputTranscription_def
      onOutputTranscription_def onAudio_def audioData_def Let_def split: option.splits)

lemma onTurnComplete_False: "onTurnComplete (m\<lparr>turnComplete := False\<rparr>) s = (s, [])"
  by (simp add: onTurnComplete_def)

lemma andThen_unit_right: "g = (\<lambda>s. (s, [])) \<Longrightarrow> andThen f g s = f s"
  by (simp add: andThen_def split: prod.splits)

lemma message_without_turnComplete:
  "handleSessionMessage env (m\<lparr>turnComplete := False\<rparr>) s =
     andThen (onInterrupted m)
       (andThen (onInputTranscription m) (andThen (onOutputTranscription m) (onAudio env m))) s"
proof -
  have u: "onTurnComplete (m\<lparr>turnComplete := False\<rparr>) = (\<lambda>s. (s, []))"
    by (simp add: fun_eq_iff onTurnComplete_False)
  have "andThen (onAudio env m) (onTurnComplete (m\<lparr>turnComplete := False\<rparr>)) = onAudio env m"
    by (simp add: fun_eq_iff andThen_unit_right [OF u])
  then show ?thesis
    by (simp add: handleSessionMessage_def phases_ignore_turnComplete)
qed

lemma message_split_turnComplete:
  "handleSessionMessage env m s =
     andThen (handleSessionMessage env (m\<lparr>turnComplete := False\<rparr>)) (onTurnComplete m) s"
proof -
  have e: "handleSessionMessage env (m\<lparr>turnComplete := False\<rparr>) =
      andThen (onInterrupted m)
       (andThen (onInputTranscription m) (andThen (onOutputTranscription m) (onAudio env m)))"
    by (simp add: fun_eq_iff message_without_turnComplete)
  have a: "\<And>f g h. andThen (andThen f g) h = andThen f (andThen g h)"
    by (simp add: fun_eq_iff andThen_assoc)
  have "andThen (handleSessionMessage env (m\<lparr>turnComplete := False\<rparr>)) (onTurnComplete m) s =
      andThen (andThen (onInterrupted m)
        (andThen (onInputTranscription m) (andThen (onOutputTranscription m) (onAudio env m))))
        (onTurnComplete m) s"
    by (simp only: e)
  also have "\<dots> = handleSessionMessage env m s"
    by (simp only: a handleSessionMessage_def)
  finally show ?thesis by simp
qed

lemma snd_onTurnComplete:
  "turnComplete m \<Longrightarrow> snd (onTurnComplete m s) = StatusUpdate LISTENING None # turnCompleteFlush s"
  by (simp add: onTurnComplete_def andThen_def finalizeUser_def finalizeBot_def botTurn_def
      userTurn_def turnCompleteFlush_def split: prod.splits)

lemma grounding_onTurnComplete:
  "currentGrounding (fst (onTurnComplete m s)) =
     (if turnComplete m \<and> currentOutputTranscription s \<noteq> [] then [] else currentGrounding s)"
  by (simp add: fst_onTurnComplete fst_finalizeBot fst_finalizeUser)

lemma message_user_acc:
  "currentInputTranscription (fst (handleSessionMessage env m s)) =
     (if turnComplete m then []
      else (case inputTranscription m of None \<Rightarrow> currentInputTranscription s | Some t \<Rightarrow> t))"
  by (simp add: handleSessionMessage_def fst_andThen acc_onTurnComplete acc_onAudio
      acc_onOutputTranscription acc_onInputTranscription acc_onInterrupted split: option.splits)

subsection \<open>Grounding\<close>

lemma orElse_nonempty: "d \<noteq> [] \<Longrightarrow> orElse v d \<noteq> []"
  by (cases v) simp_all

lemma resolved_resolveGrounding: "resolved (resolveGrounding chunks)"
  by (auto simp add: resolved_def resolveGrounding_def list_all_iff toSource_def orElse_nonempty)

lemma grounding_phases:
  "currentGrounding (fst (onInterrupted m s)) =
     (if interrupted m \<and> currentOutputTranscription s \<noteq> [] then [] else currentGrounding s)"
  "currentGrounding (fst (onOutputTranscription m s)) =
     (case outputTranscription m of None \<Rightarrow> currentGrounding s
      | Some d \<Rightarrow> (case groundingChunks m of None \<Rightarrow> currentGrounding s
                    | Some chunks \<Rightarrow> resolveGrounding chunks))"
  by (simp_all add: fst_onInterrupted fst_finalizeBot fst_onOutputTranscription split: option.splits)

lemma resolved_Nil: "resolved []"
  by (simp add: resolved_def)

lemma resolved_phases:
  assumes "resolved (currentGrounding s)"
  shows "resolved (currentGrounding (fst (onInterrupted m s)))"
    and "resolved (currentGrounding (fst (onInputTranscription m s)))"
    and "resolved (currentGrounding (fst (onOutputTranscription m s)))"
    and "resolved (currentGrounding (fst (onAudio env m s)))"
    and "resolved (currentGrounding (fst (onTurnComplete m s)))"
  using assms
  by (simp_all add: grounding_phases acc_onInputTranscription acc_onAudio grounding_onTurnComplete
      resolved_Nil resolved_resolveGrounding split: option.splits)

lemma turnResolved_turns:
  "turnResolved (userTurn s fin)"
  "resolved (currentGrounding s) \<Longrightarrow> turnResolved (botTurn s fin)"
  "turnResolved \<lparr> author = a, text' = x, isFinal = fin, grounding = None \<rparr>"
  "turnResolved \<lparr> author = a, text' = x, isFinal = fin, grounding = Some gs \<rparr> = resolved gs"
  by (simp_all add: turnResolved_def userTurn_def botTurn_def)

lemma turns_phases_resolved:
  assumes "resolved (currentGrounding s)"
  shows "list_all turnResolved (turnsOf (snd (onInterrupted m s)))"
    and "list_all turnResolved (turnsOf (snd (onInputTranscription m s)))"
    and "list_all turnResolved (turnsOf (snd (onOutputTranscription m s)))"
    and "list_all turnResolved (turnsOf (snd (onTurnComplete m s)))"
  using assms
  by (simp_all add: turnsOf_onInterrupted turnsOf_onInputTranscription
      turnsOf_onOutputTranscription turnsOf_onTurnComplete turnResolved_turns
      resolved_resolveGrounding split: option.splits)

lemma message_resolved:
  assumes "resolved (currentGrounding s)"
  shows "list_all turnResolved (turnsOf (snd (handleSessionMessage env m s)))"
    and "resolved (currentGrounding (fst (handleSessionMessage env m s)))"
proof -
  let ?s1 = "fst (onInterrupted m s)"
  let ?s2 = "fst (onInputTranscription m ?s1)"
  let ?s3 = "fst (onOutputTranscription m ?s2)"
  let ?s4 = "fst (onAudio env m ?s3)"
  have r1: "resolved (currentGrounding ?s1)" by (rule resolved_phases(1) [OF assms])
  have r2: "resolved (currentGrounding ?s2)" by (rule resolved_phases(2) [OF r1])
  have r3: "resolved (currentGrounding ?s3)" by (rule resolved_phases(3) [OF r2])
  have r4: "resolved (currentGrounding ?s4)" by (rule resolved_phases(4) [OF r3])
  show "list_all turnResolved (turnsOf (snd (handleSessionMessage env m s)))"
    by (simp add: turnsOf_message turns_phases_resolved(1) [OF assms]
        turns_phases_resolved(2) [OF r1] turns_phases_resolved(3) [OF r2]
        turns_phases_resolved(4) [OF r4])
  show "resolved (currentGrounding (fst (handleSessionMessage env m s)))"
    using resolved_phases(5) [OF r4] by (simp add: handleSessionMessage_def fst_andThen)
qed

lemma handleAll_resolved:
  "resolved (currentGrounding s) \<Longrightarrow>
   list_all turnResolved (turnsOf (snd (handleAll ims s))) \<and>
   resolved (currentGrounding (fst (handleAll ims s)))"
proof (induction ims arbitrary: s)
  case Nil
  then show ?case by simp
next
  case (Cons im ims)
  obtain env m where im: "im = (env, m)" by (cases im)
  show ?case
    using message_resolved [OF Cons.prems, of env m]
      Cons.IH [of "fst (handleSessionMessage env m s)"]
    by (simp add: im snd_andThen fst_andThen turnsOf_append)
qed

lemma carriesGrounding_turns:
  "carriesGrounding (userTurn s fin)" "carriesGrounding (botTurn s fin)"
  "carriesGrounding \<lparr> author = User, text' = x, isFinal = fin, grounding = None \<rparr>"
  "carriesGrounding \<lparr> author = Bot, text' = x, isFinal = fin, grounding = Some gs \<rparr>"
  by (simp_all add: carriesGrounding_def userTurn_def botTurn_def)

lemma message_carriesGrounding:
  "list_all carriesGrounding (turnsOf (snd (handleSessionMessage env m s)))"
  by (simp add: turnsOf_message turnsOf_onInterrupted turnsOf_onInputTranscription
      turnsOf_onOutputTranscription turnsOf_onTurnComplete carriesGrounding_turns
      split: option.splits)

lemma handleAll_carriesGrounding:
  "list_all carriesGrounding (turnsOf (snd (handleAll ims s)))"
proof (induction ims arbitrary: s)
  case Nil
  show ?case by simp
next
  case (Cons im ims)
  obtain env m where im: "im = (env, m)" by (cases im)
  show ?case
    using message_carriesGrounding [of env m s] Cons.IH [of "fst (handleSessionMessage env m s)"]
    by (simp add: im snd_andThen turnsOf_append)
qed


subsection \<open>Statuses, errors and the opening of the session\<close>

lemma statusesOf_append: "statusesOf (xs @ ys) = statusesOf xs @ statusesOf ys"
  by (induction xs rule: statusesOf.induct) simp_all

lemma statusesOf_release: "statusesOf (release ev r) = (case r of None \<Rightarrow> [] | Some i \<Rightarrow> statusesOf [ev i])"
  by (simp add: release_def split: option.splits)

lemma statusesOf_closeIfOpen: "statusesOf (closeIfOpen st r) = []"
  by (simp add: closeIfOpen_def split: option.splits)

lemma statusesOf_SourceStop: "statusesOf (map SourceStop ns) = []"
  by (induction ns) simp_all

lemma statusesOf_stopSession: "statusesOf (snd (stopSession st s)) = []"
  by (simp add: stopSession_def statusesOf_append statusesOf_release statusesOf_closeIfOpen
      statusesOf_SourceStop split: option.splits)

lemma snd_handleSessionError:
  "snd (handleSessionError st e s) =
     PlayCue CueError # StatusUpdate ERROR (Some (userMessage e)) # snd (stopSession st s)"
  by (simp add: handleSessionError_def split: prod.splits)

lemma includes'_sublist: "includes' hay needle \<longleftrightarrow> sublist needle hay"
  by (induction hay) (simp_all add: sublist_Cons_right)

lemma snd_handleSessionOpen:
  "snd (handleSessionOpen st outcome a b s) =
     StatusUpdate LISTENING None # PlayCue CueStart # GetUserMedia
       # snd (handleSessionOpenResume st outcome a b s)"
  by (simp add: handleSessionOpen_def andThen_def handleSessionOpenBegin_def split: prod.splits)

lemma statusesOf_handleSessionOpenResume:
  "statusesOf (snd (handleSessionOpenResume st outcome a b s)) =
     (case outcome of Denied \<Rightarrow> [(ERROR, Some micDenied)] | Granted stream \<Rightarrow> [])"
  by (cases "stopSession st s")
    (use statusesOf_stopSession [of st s] in
      \<open>simp add: handleSessionOpenResume_def Let_def split: MicOutcome.splits option.splits\<close>)

subsection \<open>Capture\<close>

lemma capture_pending:
  "sessionPromise s = Some p \<Longrightarrow> heap p = Pending rs \<Longrightarrow>
   onaudioprocess heap s f = (heap(p := Pending (rs @ [f])), [])"
  by (simp add: onaudioprocess_def)

lemma captureAll_pending:
  "sessionPromise s = Some p \<Longrightarrow> heap p = Pending rs \<Longrightarrow>
   captureAll heap s fs = (heap(p := Pending (rs @ fs)), [])"
proof (induction fs arbitrary: heap rs)
  case Nil
  then show ?case by (auto simp add: fun_eq_iff)
next
  case (Cons f fs)
  have step: "onaudioprocess heap s f = (heap(p := Pending (rs @ [f])), [])"
    using Cons.prems by (simp add: capture_pending)
  have "captureAll (heap(p := Pending (rs @ [f]))) s fs =
      ((heap(p := Pending (rs @ [f])))(p := Pending ((rs @ [f]) @ fs)), [])"
    using Cons.prems(1) by (intro Cons.IH) simp_all
  then show ?case by (auto simp add: step fun_eq_iff)
qed

subsection \<open>Releases\<close>

lemma fst_stopSession:
  "fst (stopSession st s) =
     s\<lparr>session := None, mediaStream := None, source := None, scriptProcessor := None,
        outputSources := [], sessionPromise := None\<rparr>"
  by (simp add: stopSession_def)

lemma releasesOf_stopSession:
  "releasesOf (snd (stopSession st s)) =
     release SessionClose (session s) @ release TracksStop (mediaStream s)
     @ release SourceDisconnect (source s) @ release ProcessorDisconnect (scriptProcessor s)
     @ closeIfOpen st (inputAudioContext s) @ closeIfOpen st (outputAudioContext s)
     @ map SourceStop (outputSources s)"
proof -
  have m: "filter isRelease (map SourceStop ns) = map SourceStop ns" for ns
    by (induction ns) simp_all
  show ?thesis
    by (simp add: releasesOf_def stopSession_def release_def closeIfOpen_def m
        split: option.splits)
qed


lemma stop_idempotent_state:
  "fst (stopSession st2 (fst (stopSession st1 s))) = fst (stopSession st1 s)"
  by (simp add: fst_stopSession)

lemma distinct_first:
  "distinct (outputSources s) \<Longrightarrow> contextsDiffer s \<Longrightarrow>
   distinct (releasesOf (snd (stopSession st s)))"
  by (auto simp add: releasesOf_stopSession release_def closeIfOpen_def contextsDiffer_def
      distinct_map inj_on_def split: option.splits)

lemma releasesOf_append: "releasesOf (xs @ ys) = releasesOf xs @ releasesOf ys"
  by (simp add: releasesOf_def)




subsection \<open>The two halves of the handler\<close>

lemma onAudio_halves: "onAudio env m s = andThen (onAudioBegin env m) (onAudioEnd env m) s"
  by (simp add: onAudio_def onAudioBegin_def onAudioEnd_def andThen_def playStreamedAudio_def
      playStreamedAudioClamp_def split: option.splits)

lemma message_halves:
  "handleSessionMessage env m s =
     andThen (handleSessionMessageBegin env m) (handleSessionMessageEnd env m) s"
proof -
  have a: "\<And>f g h. andThen (andThen f g) h = andThen f (andThen g h)"
    by (simp add: fun_eq_iff andThen_assoc)
  have o: "onAudio env m = andThen (onAudioBegin env m) (onAudioEnd env m)"
    by (simp add: fun_eq_iff onAudio_halves)
  show ?thesis
    by (simp only: handleSessionMessage_def handleSessionMessageBegin_def
        handleSessionMessageEnd_def a o)
qed

lemma playback_onAudioBegin:
  "nextStartTime (fst (onAudioBegin env m s)) =
     (case audioData m of None \<Rightarrow> nextStartTime s
      | Some a \<Rightarrow> (case outputAudioContext s of None \<Rightarrow> nextStartTime s
                    | Some c \<Rightarrow> max (nextStartTime s) (currentTime env)))"
  "outputAudioContext (fst (onAudioBegin env m s)) = outputAudioContext s"
  by (simp_all add: onAudioBegin_def playStreamedAudioClamp_def split: option.splits)

lemma playback_onAudioEnd:
  "nextStartTime (fst (onAudioEnd env m s)) =
     (case audioData m of None \<Rightarrow> nextStartTime s
      | Some a \<Rightarrow> (case outputAudioContext s of None \<Rightarrow> nextStartTime s
                    | Some c \<Rightarrow> nextStartTime s + bufferDuration env a))"
  "outputAudioContext (fst (onAudioEnd env m s)) = outputAudioContext s"
  by (simp_all add: onAudioEnd_def playStreamedAudioResume_def Let_def split: option.splits)

lemma playback_Begin:
  "nextStartTime (fst (handleSessionMessageBegin env m s)) =
     (case audioData m of None \<Rightarrow> (if interrupted m then 0 else nextStartTime s)
      | Some a \<Rightarrow> (case outputAudioContext s of
            None \<Rightarrow> (if interrupted m then 0 else nextStartTime s)
          | Some c \<Rightarrow> max (if interrupted m then 0 else nextStartTime s) (currentTime env)))"
  "outputAudioContext (fst (handleSessionMessageBegin env m s)) = outputAudioContext s"
  by (simp_all add: handleSessionMessageBegin_def fst_andThen playback_onAudioBegin
      playback_onInputTranscription playback_onOutputTranscription playback_onInterrupted
      split: option.splits)

lemma playback_End:
  "nextStartTime (fst (handleSessionMessageEnd env m s)) =
     (case audioData m of None \<Rightarrow> nextStartTime s
      | Some a \<Rightarrow> (case outputAudioContext s of None \<Rightarrow> nextStartTime s
                    | Some c \<Rightarrow> nextStartTime s + bufferDuration env a))"
  "outputAudioContext (fst (handleSessionMessageEnd env m s)) = outputAudioContext s"
  by (simp_all add: handleSessionMessageEnd_def fst_andThen playback_onAudioEnd
      playback_onTurnComplete split: option.splits)

lemma quietHalf_keeps:
  "quietHalf h \<Longrightarrow> nextStartTime (fst (runHalf h s)) = nextStartTime s"
  by (cases h) (simp_all add: playback_Begin playback_End)

lemma runHalf_context: "outputAudioContext (fst (runHalf h s)) = outputAudioContext s"
  by (cases h) (simp_all add: playback_Begin playback_End)

lemma runHalves_context: "outputAudioContext (fst (runHalves hs s)) = outputAudioContext s"
  by (induction hs arbitrary: s) (simp_all add: fst_andThen runHalf_context)

lemma quiet_keeps:
  "list_all quietHalf hs \<Longrightarrow> nextStartTime (fst (runHalves hs s)) = nextStartTime s"
  by (induction hs arbitrary: s) (simp_all add: fst_andThen quietHalf_keeps)

lemma calmHalf_monotone:
  "calmHalf h \<Longrightarrow> nextStartTime s \<le> nextStartTime (fst (runHalf h s))"
  by (cases h) (auto simp add: playback_Begin playback_End nonNegativeAudio_def split: option.splits)

lemma calm_monotone:
  "list_all calmHalf hs \<Longrightarrow> nextStartTime s \<le> nextStartTime (fst (runHalves hs s))"
proof (induction hs arbitrary: s)
  case Nil
  show ?case by simp
next
  case (Cons h hs)
  then have h: "calmHalf h" and hs: "list_all calmHalf hs" by simp_all
  have "nextStartTime s \<le> nextStartTime (fst (runHalf h s))"
    by (rule calmHalf_monotone [OF h])
  also have "\<dots> \<le> nextStartTime (fst (runHalves hs (fst (runHalf h s))))"
    by (rule Cons.IH [OF hs])
  finally show ?case by (simp add: fst_andThen)
qed

lemma step_between:
  assumes "audioData m = Some a" "outputAudioContext s = Some c"
  shows "nextStartTime (fst (handleSessionMessageEnd env m
            (fst (runHalves hs (fst (handleSessionMessageBegin env m s)))))) =
         nextStartTime (fst (runHalves hs (fst (handleSessionMessageBegin env m s))))
           + bufferDuration env a"
  using assms by (simp add: playback_End runHalves_context playback_Begin)

lemma step_quiet:
  assumes "audioData m = Some a" "outputAudioContext s = Some c" "list_all quietHalf hs"
  shows "nextStartTime (fst (handleSessionMessageEnd env m
            (fst (runHalves hs (fst (handleSessionMessageBegin env m s)))))) =
         max (if interrupted m then 0 else nextStartTime s) (currentTime env)
           + bufferDuration env a"
  using assms by (simp add: step_between quiet_keeps playback_Begin)

lemma message_context:
  "outputAudioContext (fst (handleSessionMessage env m s)) = outputAudioContext s"
  by (simp add: message_halves fst_andThen playback_Begin playback_End)

lemma step_interrupted:
  assumes "audioData m = Some a" "outputAudioContext s = Some c"
    "interrupted m'" "audioData m' = None"
  shows "nextStartTime (fst (handleSessionMessageEnd env m
            (fst (handleSessionMessage env' m' (fst (handleSessionMessageBegin env m s)))))) =
         bufferDuration env a"
  using assms by (simp add: playback_End playback_Begin nextStartTime_message message_context)

subsection \<open>The live set stays a set\<close>

lemma distinct_setAdd: "distinct xs \<Longrightarrow> distinct (setAdd n xs)"
  by (simp add: setAdd_def)

lemma message_keeps_distinct:
  "distinct (outputSources s) \<Longrightarrow> distinct (outputSources (fst (handleSessionMessage env m s)))"
  by (simp add: outputSources_message distinct_setAdd split: option.splits)

lemma onEnded_keeps_distinct:
  "distinct (outputSources s) \<Longrightarrow> distinct (outputSources (onEnded n s))"
  by (simp add: onEnded_def distinct_removeAll)

subsection \<open>Two stops in succession\<close>

lemma observeCloses_append:
  "observeCloses st (xs @ ys) = observeCloses (observeCloses st xs) ys"
  by (induction st xs rule: observeCloses.induct) (simp_all add: fun_upd_def)

lemma failures_append:
  "failures st (xs @ ys) = failures st xs @ failures (observeCloses st xs) ys"
  by (induction st xs rule: failures.induct) (simp_all add: fun_upd_def)

lemma observe_release:
  "ev \<in> {SessionClose, TracksStop, SourceDisconnect, ProcessorDisconnect} \<Longrightarrow>
   observeCloses st (release ev r) = st"
  by (auto simp add: release_def split: option.splits)

lemma failures_release:
  "ev \<in> {SessionClose, TracksStop, SourceDisconnect, ProcessorDisconnect} \<Longrightarrow>
   failures st (release ev r) = []"
  by (auto simp add: release_def split: option.splits)

lemma observe_SourceStop: "observeCloses st (map SourceStop ns) = st"
  by (induction ns) simp_all

lemma failures_SourceStop: "failures st (map SourceStop ns) = []"
  by (induction ns) simp_all

lemma observe_closeIfOpen:
  "observeCloses st (closeIfOpen st' r) =
     (case r of None \<Rightarrow> st | Some c \<Rightarrow> if st' c \<noteq> Closed then st(c := Closed) else st)"
  by (simp add: closeIfOpen_def split: option.splits)

lemma failures_closeIfOpen:
  "failures st (closeIfOpen st' r) =
     (case r of None \<Rightarrow> []
      | Some c \<Rightarrow> if st' c \<noteq> Closed \<and> st c = Closed then [ContextClose c] else [])"
  by (simp add: closeIfOpen_def split: option.splits)

lemma observe_stopSession:
  "observeCloses st (snd (stopSession st s)) =
     observeCloses (observeCloses st (closeIfOpen st (inputAudioContext s)))
       (closeIfOpen st (outputAudioContext s))"
  by (simp add: stopSession_def observeCloses_append observe_release observe_SourceStop)

lemma closed_after_stop:
  "closeIfOpen (observeCloses st (snd (stopSession st s))) (inputAudioContext s) = []"
  "closeIfOpen (observeCloses st (snd (stopSession st s))) (outputAudioContext s) = []"
  by (auto simp add: observe_stopSession observe_closeIfOpen closeIfOpen_def split: option.splits)

lemma second_stop:
  "stopSession (observeCloses st (snd (stopSession st s))) (fst (stopSession st s)) =
     (fst (stopSession st s), [PlayCue CueStop])"
proof -
  let ?st' = "observeCloses st (snd (stopSession st s))"
  have f: "fst (stopSession st s) =
      s\<lparr>session := None, mediaStream := None, source := None, scriptProcessor := None,
        outputSources := [], sessionPromise := None\<rparr>"
    by (rule fst_stopSession)
  show ?thesis
    unfolding f using closed_after_stop [of st s]
    by (simp add: stopSession_def release_def)
qed

lemma stopTwice_eq:
  "stopTwice st s = (fst (stopSession st s), snd (stopSession st s) @ [PlayCue CueStop])"
  using second_stop [of st s]
  by (cases "stopSession st s") (simp add: stopTwice_def)

lemma failures_stopSession:
  "contextsDiffer s \<Longrightarrow> failures st (snd (stopSession st s)) = []"
  by (auto simp add: stopSession_def failures_append failures_release observe_release
      failures_SourceStop failures_closeIfOpen observe_closeIfOpen contextsDiffer_def
      split: option.splits)

subsection \<open>The grounding every bot turn carries\<close>

lemma grounding_before_turnComplete:
  "currentGrounding (fst (onAudio env m (fst (onOutputTranscription m
      (fst (onInputTranscription m (fst (onInterrupted m s)))))))) = groundingInForce m s"
  by (auto simp add: acc_onAudio grounding_phases acc_onInputTranscription groundingInForce_def
      split: option.splits)

lemma text_before_turnComplete:
  "currentOutputTranscription (fst (onAudio env m (fst (onOutputTranscription m
      (fst (onInputTranscription m (fst (onInterrupted m s)))))))) = textInForce m s"
  by (simp add: acc_onAudio acc_onOutputTranscription acc_onInputTranscription acc_onInterrupted
      textInForce_def)

lemma message_bot_turns:
  "filter (\<lambda>t. author t = Bot) (turnsOf (snd (handleSessionMessage env m s))) =
     (if interrupted m \<and> currentOutputTranscription s \<noteq> []
      then [\<lparr> author = Bot, text' = currentOutputTranscription s, isFinal = True,
               grounding = Some (currentGrounding s) \<rparr>]
      else [])
     @ (case outputTranscription m of
          None \<Rightarrow> []
        | Some d \<Rightarrow> [\<lparr> author = Bot, text' = textInForce m s, isFinal = False,
                        grounding = Some (groundingInForce m s) \<rparr>])
     @ (if turnComplete m \<and> textInForce m s \<noteq> []
        then [\<lparr> author = Bot, text' = textInForce m s, isFinal = True,
                 grounding = Some (groundingInForce m s) \<rparr>]
        else [])"
proof -
  let ?s3 = "fst (onOutputTranscription m (fst (onInputTranscription m (fst (onInterrupted m s)))))"
  let ?s4 = "fst (onAudio env m ?s3)"
  have i: "filter (\<lambda>t. author t = Bot) (turnsOf (snd (onInterrupted m s))) =
     (if interrupted m \<and> currentOutputTranscription s \<noteq> []
      then [\<lparr> author = Bot, text' = currentOutputTranscription s, isFinal = True,
               grounding = Some (currentGrounding s) \<rparr>]
      else [])"
    by (simp add: turnsOf_onInterrupted botTurn_def)
  have u: "filter (\<lambda>t. author t = Bot)
      (turnsOf (snd (onInputTranscription m (fst (onInterrupted m s))))) = []"
    by (simp add: turnsOf_onInputTranscription split: option.splits)
  have o: "filter (\<lambda>t. author t = Bot)
      (turnsOf (snd (onOutputTranscription m (fst (onInputTranscription m (fst (onInterrupted m s))))))) =
     (case outputTranscription m of
          None \<Rightarrow> []
        | Some d \<Rightarrow> [\<lparr> author = Bot, text' = textInForce m s, isFinal = False,
                        grounding = Some (groundingInForce m s) \<rparr>])"
    by (auto simp add: turnsOf_onOutputTranscription acc_onInputTranscription acc_onInterrupted
        grounding_phases textInForce_def groundingInForce_def split: option.splits)
  have c: "filter (\<lambda>t. author t = Bot) (turnsOf (snd (onTurnComplete m ?s4))) =
     (if turnComplete m \<and> textInForce m s \<noteq> []
        then [\<lparr> author = Bot, text' = textInForce m s, isFinal = True,
                 grounding = Some (groundingInForce m s) \<rparr>]
        else [])"
    using grounding_before_turnComplete [of env m s] text_before_turnComplete [of env m s]
    by (simp add: turnsOf_onTurnComplete botTurn_def userTurn_def)
  show ?thesis
    by (simp only: turnsOf_message filter_append i u o c append_Nil)
qed

lemma message_grounding_after:
  "currentGrounding (fst (handleSessionMessage env m s)) =
     (if turnComplete m \<and> textInForce m s \<noteq> [] then [] else groundingInForce m s)"
  using grounding_before_turnComplete [of env m s] text_before_turnComplete [of env m s]
  by (simp add: handleSessionMessage_def fst_andThen grounding_onTurnComplete)

section \<open>The claims\<close>

text \<open>
  C1. Over any sequence of inbound messages, each user partial is emitted as a non-final
  user turn whose text is that partial alone, and each bot delta is followed by a non-final
  bot turn whose text is the concatenation of the deltas of the turn in progress: equal to
  the specification's reconciler on every sequence, and, on a sequence with no interruption
  and no turn-complete, to the accumulator at the start followed by the deltas so far.
\<close>

theorem partial_transcripts:
  "nonFinalTexts User (snd (handleAll ims s)) = userPartials (map snd ims) \<and>
   nonFinalTexts Bot (snd (handleAll ims (s\<lparr>currentOutputTranscription := concat ds\<rparr>)))
     = specBotTexts ds (map snd ims) \<and>
   (sameTurn (map snd ims) \<longrightarrow>
      nonFinalTexts Bot (snd (handleAll ims s)) =
        map (\<lambda>k. currentOutputTranscription s @ concat (take (Suc k) (botDeltas (map snd ims))))
          [0..<length (botDeltas (map snd ims))])"
proof (intro conjI impI)
  show "nonFinalTexts User (snd (handleAll ims s)) = userPartials (map snd ims)"
    by (rule handleAll_user)
  show "nonFinalTexts Bot (snd (handleAll ims (s\<lparr>currentOutputTranscription := concat ds\<rparr>)))
     = specBotTexts ds (map snd ims)"
    by (rule handleAll_bot) simp
  assume st: "sameTurn (map snd ims)"
  have "nonFinalTexts Bot (snd (handleAll ims s))
      = specBotTexts [currentOutputTranscription s] (map snd ims)"
    by (rule handleAll_bot) simp
  then show "nonFinalTexts Bot (snd (handleAll ims s)) =
        map (\<lambda>k. currentOutputTranscription s @ concat (take (Suc k) (botDeltas (map snd ims))))
          [0..<length (botDeltas (map snd ims))]"
    using specBotTexts_sameTurn [OF st, of "[currentOutputTranscription s]"] by simp
qed

theorem partial_transcripts_witness:
  "sameTurn (map snd sampleRun) \<and>
   nonFinalTexts User (snd (handleAll sampleRun initialService)) = [''hello'', ''hello you''] \<and>
   nonFinalTexts Bot (snd (handleAll sampleRun initialService)) = [''H'', ''Hi'', ''Hi there'']"
proof -
  have st: "sameTurn (map snd sampleRun)"
    by (simp add: sameTurn_def sampleRun_def emptyMessage_def)
  have ds: "botDeltas (map snd sampleRun) = [''H'', ''i'', '' there'']"
    by (simp add: botDeltas_def sampleRun_def emptyMessage_def)
  have us: "userPartials (map snd sampleRun) = [''hello'', ''hello you'']"
    by (simp add: userPartials_def sampleRun_def emptyMessage_def)
  have acc: "currentOutputTranscription initialService = []"
    by (simp add: initialService_def)
  show ?thesis
    using partial_transcripts [of sampleRun initialService "[]"] st
    by (simp add: ds us acc)
qed

text \<open>
  C2. A message that carries the interruption signal is handled as follows: every output
  of the live set is stopped, the live set is emptied, the watermark is set to zero and a
  non-empty bot accumulator is emitted as a final turn with its grounding; the user
  accumulator is untouched; only then is the rest of the message handled, from that state.
  No chunk is scheduled before that: the only chunk the message schedules is its own, it
  starts at the clock reading (the reset watermark clamped to the clock), and it is the
  only live output left.
\<close>

theorem interruption_first:
  "interrupted m \<Longrightarrow>
   handleSessionMessage env m s =
     (fst (handleSessionMessage env (m\<lparr>interrupted := False\<rparr>) (interruptedState s)),
      map SourceStop (outputSources s) @ interruptedFlush s
        @ snd (handleSessionMessage env (m\<lparr>interrupted := False\<rparr>) (interruptedState s))) \<and>
   outputSources (interruptedState s) = [] \<and>
   nextStartTime (interruptedState s) = 0 \<and>
   currentInputTranscription (interruptedState s) = currentInputTranscription s \<and>
   startsOf (map SourceStop (outputSources s) @ interruptedFlush s) = [] \<and>
   startsOf (snd (handleSessionMessage env m s)) =
     (case audioData m of None \<Rightarrow> []
      | Some a \<Rightarrow> (case outputAudioContext s of None \<Rightarrow> []
          | Some c \<Rightarrow> [(newSource env, max 0 (currentTime env), bufferDuration env a)])) \<and>
   outputSources (fst (handleSessionMessage env m s)) =
     (case audioData m of None \<Rightarrow> []
      | Some a \<Rightarrow> (case outputAudioContext s of None \<Rightarrow> [] | Some c \<Rightarrow> [newSource env]))"
proof (intro conjI)
  assume i: "interrupted m"
  show "handleSessionMessage env m s =
     (fst (handleSessionMessage env (m\<lparr>interrupted := False\<rparr>) (interruptedState s)),
      map SourceStop (outputSources s) @ interruptedFlush s
        @ snd (handleSessionMessage env (m\<lparr>interrupted := False\<rparr>) (interruptedState s)))"
    by (rule message_interrupted [OF i])
  show "outputSources (interruptedState s) = []" "nextStartTime (interruptedState s) = 0"
    "currentInputTranscription (interruptedState s) = currentInputTranscription s"
    by (simp_all add: interruptedState_def)
  show "startsOf (map SourceStop (outputSources s) @ interruptedFlush s) = []"
    by (simp add: startsOf_append startsOf_SourceStop interruptedFlush_def)
  show "startsOf (snd (handleSessionMessage env m s)) =
     (case audioData m of None \<Rightarrow> []
      | Some a \<Rightarrow> (case outputAudioContext s of None \<Rightarrow> []
          | Some c \<Rightarrow> [(newSource env, max 0 (currentTime env), bufferDuration env a)]))"
    using i by (simp add: startsOf_message)
  show "outputSources (fst (handleSessionMessage env m s)) =
     (case audioData m of None \<Rightarrow> []
      | Some a \<Rightarrow> (case outputAudioContext s of None \<Rightarrow> [] | Some c \<Rightarrow> [newSource env]))"
    using i by (simp add: outputSources_message setAdd_def split: option.splits)
qed

theorem interruption_first_witness:
  "interrupted bargeIn \<and>
   handleSessionMessage sampleEnv bargeIn busyService =
     (busyService\<lparr>outputSources := [7], nextStartTime := 7, currentOutputTranscription := [],
        currentGrounding := []\<rparr>,
      [SourceStop 3, SourceStop 4,
       TranscriptUpdate \<lparr> author = Bot, text' = ''Hel'', isFinal = True,
         grounding = Some [\<lparr> title = ''Source'', uri = ''https://example.org'' \<rparr>] \<rparr>,
       SourceStart 7 5 2])"
proof -
  have i: "interrupted bargeIn" by (simp add: bargeIn_def emptyMessage_def)
  have st: "interruptedState busyService =
      busyService\<lparr>outputSources := [], nextStartTime := 0, currentOutputTranscription := [],
        currentGrounding := []\<rparr>"
    by (simp add: interruptedState_def busyService_def initialService_def)
  have fl: "interruptedFlush busyService =
      [TranscriptUpdate \<lparr> author = Bot, text' = ''Hel'', isFinal = True,
         grounding = Some [\<lparr> title = ''Source'', uri = ''https://example.org'' \<rparr>] \<rparr>]"
    by (simp add: interruptedFlush_def busyService_def initialService_def)
  have rest: "handleSessionMessage sampleEnv (bargeIn\<lparr>interrupted := False\<rparr>)
       (busyService\<lparr>outputSources := [], nextStartTime := 0, currentOutputTranscription := [],
        currentGrounding := []\<rparr>) =
     (busyService\<lparr>outputSources := [7], nextStartTime := 7, currentOutputTranscription := [],
        currentGrounding := []\<rparr>, [SourceStart 7 5 2])"
    by (simp add: message_defs bargeIn_def emptyMessage_def busyService_def initialService_def
        sampleEnv_def)
  have os: "outputSources busyService = [3, 4]"
    by (simp add: busyService_def)
  show ?thesis
    using interruption_first [OF i, of sampleEnv busyService] i
    by (simp add: st fl rest os)
qed

text \<open>
  C3 (as amended). The handler of a message is its two halves around the decoding of the
  chunk. The second half adds the duration of the decoded buffer to the watermark as it
  stands then. After a non-interrupted scheduling step, one with no interruption and no
  other chunk handled during the decoding, the new watermark is the larger of the previous
  watermark and the clock reading at the start of the step, plus the duration; so it is for
  \<open>playStreamedAudio\<close> run with nothing in between. When an interruption is handled
  during the decoding, the step leaves the watermark at the duration alone. Over any
  sequence of halves, and any sequence of whole messages, with no interruption and no
  negative duration the watermark never decreases; an interruption with no chunk of its own
  leaves it at zero.
\<close>

theorem watermark_advance:
  "handleSessionMessage env m s =
     andThen (handleSessionMessageBegin env m) (handleSessionMessageEnd env m) s \<and>
   nextStartTime (fst (playStreamedAudio env a s)) =
     (case outputAudioContext s of None \<Rightarrow> nextStartTime s
      | Some c \<Rightarrow> max (nextStartTime s) (currentTime env) + bufferDuration env a) \<and>
   (audioData m = Some a \<longrightarrow> outputAudioContext s = Some c \<longrightarrow>
      nextStartTime (fst (handleSessionMessageEnd env m
          (fst (runHalves hs (fst (handleSessionMessageBegin env m s)))))) =
        nextStartTime (fst (runHalves hs (fst (handleSessionMessageBegin env m s))))
          + bufferDuration env a) \<and>
   (audioData m = Some a \<longrightarrow> outputAudioContext s = Some c \<longrightarrow> list_all quietHalf hs \<longrightarrow>
      nextStartTime (fst (handleSessionMessageEnd env m
          (fst (runHalves hs (fst (handleSessionMessageBegin env m s)))))) =
        max (if interrupted m then 0 else nextStartTime s) (currentTime env)
          + bufferDuration env a) \<and>
   (audioData m = Some a \<longrightarrow> outputAudioContext s = Some c \<longrightarrow>
    interrupted m' \<longrightarrow> audioData m' = None \<longrightarrow>
      nextStartTime (fst (handleSessionMessageEnd env m
          (fst (handleSessionMessage env' m' (fst (handleSessionMessageBegin env m s)))))) =
        bufferDuration env a) \<and>
   (list_all calmHalf hs \<longrightarrow> nextStartTime s \<le> nextStartTime (fst (runHalves hs s))) \<and>
   (steady ims \<longrightarrow> nextStartTime s \<le> nextStartTime (fst (handleAll ims s))) \<and>
   (interrupted m' \<longrightarrow> audioData m' = None \<longrightarrow>
      nextStartTime (fst (handleSessionMessage env' m' s)) = 0)"
  using message_halves [of env m s] nextStartTime_playStreamedAudio [of env a s]
    step_between [of m a s c env hs] step_quiet [of m a s c hs env]
    step_interrupted [of m a s c m' env env'] calm_monotone [of hs s]
    handleAll_monotone [of ims s]
  by (simp add: nextStartTime_message)

theorem watermark_advance_witness:
  "audioData chunkMessage = Some ''AAAA'' \<and> outputAudioContext scheduledService = Some 1 \<and>
   list_all quietHalf quietHalves \<and> list_all calmHalf quietHalves \<and> steady audioRun \<and>
   interrupted pureInterrupt \<and> audioData pureInterrupt = None \<and>
   nextStartTime (fst (playStreamedAudio sampleEnv ''AAAA'' scheduledService)) = 11 \<and>
   nextStartTime (fst (handleSessionMessageEnd sampleEnv chunkMessage
       (fst (runHalves quietHalves
          (fst (handleSessionMessageBegin sampleEnv chunkMessage scheduledService)))))) = 11 \<and>
   nextStartTime (fst (handleSessionMessageEnd sampleEnv chunkMessage
       (fst (handleSessionMessage sampleEnv pureInterrupt
          (fst (handleSessionMessageBegin sampleEnv chunkMessage scheduledService)))))) = 2 \<and>
   nextStartTime scheduledService \<le> nextStartTime (fst (runHalves quietHalves scheduledService)) \<and>
   nextStartTime scheduledService \<le> nextStartTime (fst (handleAll audioRun scheduledService)) \<and>
   nextStartTime (fst (handleSessionMessage sampleEnv pureInterrupt scheduledService)) = 0"
proof -
  have a: "audioData chunkMessage = Some ''AAAA''" "outputAudioContext scheduledService = Some 1"
    by (simp_all add: chunkMessage_def audioData_def emptyMessage_def scheduledService_def
        initialService_def)
  have q: "list_all quietHalf quietHalves" "list_all calmHalf quietHalves"
    by (simp_all add: quietHalves_def audioData_def emptyMessage_def nonNegativeAudio_def)
  have st: "steady audioRun"
    by (simp add: steady_def audioRun_def nonNegativeAudio_def audioData_def emptyMessage_def
        sampleEnv_def)
  have i: "interrupted pureInterrupt" "audioData pureInterrupt = None"
    by (simp_all add: pureInterrupt_def audioData_def emptyMessage_def)
  have c: "nextStartTime scheduledService = 9" "\<not> interrupted chunkMessage"
    "currentTime sampleEnv = 5" "bufferDuration sampleEnv ''AAAA'' = 2"
    by (simp_all add: scheduledService_def initialService_def sampleEnv_def chunkMessage_def
        emptyMessage_def)
  show ?thesis
    using watermark_advance [of sampleEnv chunkMessage scheduledService "''AAAA''" 1
        quietHalves pureInterrupt sampleEnv audioRun] a q st i
    by (simp add: c)
qed

text \<open>
  The claim as first stated, new watermark = previous watermark + duration, fails for a
  non-interrupted step when the clock is ahead of the watermark: from a watermark of 0, at
  clock 5, a buffer of 2 seconds leaves the watermark at 7.
\<close>

theorem watermark_counterexample:
  "nextStartTime (fst (playStreamedAudio sampleEnv ''AAAA'' playingService))
     \<noteq> nextStartTime playingService + bufferDuration sampleEnv ''AAAA''"
  by (simp add: playStreamedAudio_atomic playingService_def initialService_def sampleEnv_def)

text \<open>
  C4. \<open>stopSession\<close> called twice in succession, from any state and whatever the contexts
  report at the first call: the second call leaves the state as the first call left it and
  does nothing but play the stop cue again, so it releases nothing. With the live set a set
  and the two contexts two objects, no release is made twice across the two calls, and no
  call of the two is refused.
\<close>

theorem stop_twice:
  "fst (stopTwice st s) = fst (stopSession st s) \<and>
   snd (stopTwice st s) = snd (stopSession st s) @ [PlayCue CueStop] \<and>
   (distinct (outputSources s) \<longrightarrow> contextsDiffer s \<longrightarrow>
      distinct (releasesOf (snd (stopTwice st s))) \<and> failures st (snd (stopTwice st s)) = [])"
  using distinct_first [of s st] failures_stopSession [of s st]
  by (simp add: stopTwice_eq releasesOf_append failures_append releasesOf_def)

theorem stop_twice_witness:
  "distinct (outputSources liveService) \<and> contextsDiffer liveService \<and>
   snd (stopTwice allRunning liveService) =
     [PlayCue CueStop, SessionClose 5, TracksStop 6, SourceDisconnect 8, ProcessorDisconnect 9,
      ContextClose 1, ContextClose 2, SourceStop 3, SourceStop 4, PlayCue CueStop] \<and>
   distinct (releasesOf (snd (stopTwice allRunning liveService))) \<and>
   failures allRunning (snd (stopTwice allRunning liveService)) = []"
proof -
  have h: "distinct (outputSources liveService)" "contextsDiffer liveService"
    by (simp_all add: liveService_def initialService_def contextsDiffer_def)
  have e: "snd (stopSession allRunning liveService) =
     [PlayCue CueStop, SessionClose 5, TracksStop 6, SourceDisconnect 8, ProcessorDisconnect 9,
      ContextClose 1, ContextClose 2, SourceStop 3, SourceStop 4]"
    by (simp add: stopSession_def release_def closeIfOpen_def allRunning_def liveService_def
        initialService_def)
  from stop_twice [of allRunning liveService] h
  have t: "snd (stopTwice allRunning liveService) =
      snd (stopSession allRunning liveService) @ [PlayCue CueStop]"
    "distinct (releasesOf (snd (stopTwice allRunning liveService)))"
    "failures allRunning (snd (stopTwice allRunning liveService)) = []"
    by blast+
  have s: "snd (stopTwice allRunning liveService) =
     [PlayCue CueStop, SessionClose 5, TracksStop 6, SourceDisconnect 8, ProcessorDisconnect 9,
      ContextClose 1, ContextClose 2, SourceStop 3, SourceStop 4, PlayCue CueStop]"
    unfolding t(1) e by simp
  show ?thesis
    using h s t(2) t(3) by blast
qed

text \<open>
  C5 (as amended). The capture callback tests whether the field \<open>sessionPromise\<close> holds a
  promise, not whether that promise has resolved. With no promise the frame is dropped.
  With a fulfilled promise it is sent. With a pending promise nothing is sent at once, but
  the frames are stored with the promise and all of them are sent, in capture order, when
  the promise is fulfilled. With a rejected promise the frame is dropped.
\<close>

theorem frames_follow_promise:
  "(sessionPromise s = None \<longrightarrow> onaudioprocess heap s f = (heap, [])) \<and>
   (sessionPromise s = Some p \<longrightarrow> heap p = Fulfilled h \<longrightarrow>
      onaudioprocess heap s f = (heap, [SendRealtimeInput h f])) \<and>
   (sessionPromise s = Some p \<longrightarrow> heap p = Rejected \<longrightarrow> onaudioprocess heap s f = (heap, [])) \<and>
   (sessionPromise s = Some p \<longrightarrow> heap p = Pending rs \<longrightarrow>
      snd (captureAll heap s fs) = [] \<and>
      resolveConnect (fst (captureAll heap s fs)) p h =
        ((fst (captureAll heap s fs))(p := Fulfilled h), map (SendRealtimeInput h) (rs @ fs)))"
  by (simp add: onaudioprocess_def captureAll_pending resolveConnect_def)

theorem frames_follow_promise_witness:
  "sessionPromise openingService = Some 0 \<and> pendingHeap 0 = Pending [] \<and>
   snd (captureAll pendingHeap openingService [''f1'', ''f2'']) = [] \<and>
   snd (resolveConnect (fst (captureAll pendingHeap openingService [''f1'', ''f2''])) 0 5) =
     [SendRealtimeInput 5 ''f1'', SendRealtimeInput 5 ''f2'']"
proof -
  have a: "sessionPromise openingService = Some 0" "pendingHeap 0 = Pending []"
    by (simp_all add: openingService_def pendingHeap_def)
  show ?thesis
    using frames_follow_promise [of openingService pendingHeap "''f''" 0 5 "[]" "[''f1'', ''f2'']"] a
    by simp
qed

text \<open>
  The claim as first stated fails: a frame captured while the connect promise is pending
  is sent when the promise resolves.
\<close>

theorem early_frame_sent_later:
  "snd (onaudioprocess pendingHeap openingService ''f1'') = [] \<and>
   snd (resolveConnect (fst (onaudioprocess pendingHeap openingService ''f1'')) 0 5) =
     [SendRealtimeInput 5 ''f1'']"
  by (simp add: onaudioprocess_def resolveConnect_def pendingHeap_def openingService_def)

text \<open>
  C6 (as amended). \<open>handleSessionOpen\<close> reports LISTENING first, when the transport opens
  and before it asks for the microphone, whatever the answer will be. When the microphone
  is granted no further status follows; when it is denied, ERROR with the microphone
  message follows LISTENING.
\<close>

theorem listening_on_open:
  "snd (handleSessionOpen st outcome a b s) =
     StatusUpdate LISTENING None # PlayCue CueStart # GetUserMedia
       # snd (handleSessionOpenResume st outcome a b s) \<and>
   statusesOf (snd (handleSessionOpen st outcome a b s)) =
     (LISTENING, None) #
       (case outcome of Denied \<Rightarrow> [(ERROR, Some micDenied)] | Granted stream \<Rightarrow> [])"
  by (simp add: snd_handleSessionOpen statusesOf_handleSessionOpenResume)

theorem listening_on_open_witness:
  "snd (handleSessionOpen allRunning (Granted 6) 8 9 openingService) =
     [StatusUpdate LISTENING None, PlayCue CueStart, GetUserMedia, CaptureConnect 8 9] \<and>
   statusesOf (snd (handleSessionOpen allRunning (Granted 6) 8 9 openingService)) =
     [(LISTENING, None)]"
proof -
  have "snd (handleSessionOpenResume allRunning (Granted 6) 8 9 openingService) =
      [CaptureConnect 8 9]"
    by (simp add: handleSessionOpenResume_def openingService_def initialService_def)
  then show ?thesis
    using listening_on_open [of allRunning "Granted 6" 8 9 openingService] by simp
qed

text \<open>
  The claim as first stated fails: with the microphone denied, LISTENING has been reported
  although the device was never acquired.
\<close>

theorem listening_before_acquisition:
  "snd (handleSessionOpen allRunning Denied 8 9 openingService) =
     [StatusUpdate LISTENING None, PlayCue CueStart, GetUserMedia,
      StatusUpdate ERROR (Some micDenied), PlayCue CueStop, ContextClose 1, ContextClose 2]"
  by (simp add: handleSessionOpen_def andThen_def handleSessionOpenBegin_def
      handleSessionOpenResume_def stopSession_def release_def closeIfOpen_def allRunning_def
      openingService_def initialService_def)

text \<open>
  C7. On a message with the turn-complete flag, what is emitted is what the same message
  without the flag emits, then the status LISTENING, then one final turn for each author
  whose accumulator is not empty at that point (the user's first, the bot's with the
  grounding buffer), and none for an empty accumulator; the texts of these final turns are
  the non-empty accumulators. Afterwards both accumulators are empty, and the grounding
  buffer is empty whenever the bot accumulator was not.
\<close>

theorem turn_complete_finals:
  "turnComplete m \<Longrightarrow>
   snd (handleSessionMessage env m s) =
     snd (handleSessionMessage env (m\<lparr>turnComplete := False\<rparr>) s)
     @ StatusUpdate LISTENING None
     # turnCompleteFlush (fst (handleSessionMessage env (m\<lparr>turnComplete := False\<rparr>) s)) \<and>
   currentInputTranscription (fst (handleSessionMessage env (m\<lparr>turnComplete := False\<rparr>) s)) =
     (case inputTranscription m of None \<Rightarrow> currentInputTranscription s | Some t \<Rightarrow> t) \<and>
   currentOutputTranscription (fst (handleSessionMessage env (m\<lparr>turnComplete := False\<rparr>) s)) =
     (if interrupted m then [] else currentOutputTranscription s)
     @ (case outputTranscription m of None \<Rightarrow> [] | Some d \<Rightarrow> d) \<and>
   map text' (finalTurns (turnCompleteFlush s')) =
     filter (\<lambda>x. x \<noteq> []) [currentInputTranscription s', currentOutputTranscription s'] \<and>
   currentInputTranscription (fst (handleSessionMessage env m s)) = [] \<and>
   currentOutputTranscription (fst (handleSessionMessage env m s)) = [] \<and>
   (currentOutputTranscription (fst (handleSessionMessage env (m\<lparr>turnComplete := False\<rparr>) s)) = []
    \<or> currentGrounding (fst (handleSessionMessage env m s)) = [])"
proof (intro conjI)
  assume tc: "turnComplete m"
  let ?pre = "handleSessionMessage env (m\<lparr>turnComplete := False\<rparr>) s"
  show "snd (handleSessionMessage env m s) =
      snd ?pre @ StatusUpdate LISTENING None # turnCompleteFlush (fst ?pre)"
    by (subst message_split_turnComplete) (simp add: snd_andThen snd_onTurnComplete [OF tc])
  show "currentInputTranscription (fst ?pre) =
     (case inputTranscription m of None \<Rightarrow> currentInputTranscription s | Some t \<Rightarrow> t)"
    by (simp add: message_user_acc)
  show "currentOutputTranscription (fst ?pre) =
     (if interrupted m then [] else currentOutputTranscription s)
     @ (case outputTranscription m of None \<Rightarrow> [] | Some d \<Rightarrow> d)"
    by (simp add: message_bot_acc)
  show "map text' (finalTurns (turnCompleteFlush s')) =
     filter (\<lambda>x. x \<noteq> []) [currentInputTranscription s', currentOutputTranscription s']"
    by (simp add: finalTurns_def turnCompleteFlush_def)
  show "currentInputTranscription (fst (handleSessionMessage env m s)) = []"
    using tc by (simp add: message_user_acc)
  show "currentOutputTranscription (fst (handleSessionMessage env m s)) = []"
    using tc by (simp add: message_bot_acc)
  show "currentOutputTranscription (fst ?pre) = []
    \<or> currentGrounding (fst (handleSessionMessage env m s)) = []"
    using tc
    by (subst (2) message_split_turnComplete) (simp add: fst_andThen grounding_onTurnComplete)
qed

theorem turn_complete_finals_witness:
  "turnComplete endOfTurn \<and>
   snd (handleSessionMessage sampleEnv endOfTurn busyService) =
     [StatusUpdate LISTENING None,
      TranscriptUpdate \<lparr> author = User, text' = ''hi'', isFinal = True, grounding = None \<rparr>,
      TranscriptUpdate \<lparr> author = Bot, text' = ''Hel'', isFinal = True,
         grounding = Some [\<lparr> title = ''Source'', uri = ''https://example.org'' \<rparr>] \<rparr>] \<and>
   currentInputTranscription (fst (handleSessionMessage sampleEnv endOfTurn busyService)) = [] \<and>
   currentOutputTranscription (fst (handleSessionMessage sampleEnv endOfTurn busyService)) = [] \<and>
   currentGrounding (fst (handleSessionMessage sampleEnv endOfTurn busyService)) = []"
proof -
  have tc: "turnComplete endOfTurn" by (simp add: endOfTurn_def)
  have pre: "handleSessionMessage sampleEnv (endOfTurn\<lparr>turnComplete := False\<rparr>) busyService
      = (busyService, [])"
    by (simp add: message_defs endOfTurn_def emptyMessage_def)
  have fl: "turnCompleteFlush busyService =
     [TranscriptUpdate \<lparr> author = User, text' = ''hi'', isFinal = True, grounding = None \<rparr>,
      TranscriptUpdate \<lparr> author = Bot, text' = ''Hel'', isFinal = True,
         grounding = Some [\<lparr> title = ''Source'', uri = ''https://example.org'' \<rparr>] \<rparr>]"
    by (simp add: turnCompleteFlush_def busyService_def initialService_def)
  have acc: "currentOutputTranscription busyService = ''Hel''"
    by (simp add: busyService_def)
  show ?thesis
    using turn_complete_finals [OF tc, of sampleEnv busyService busyService] tc
    by (simp add: pre fl acc)
qed

text \<open>
  C8. The sources \<open>resolveGrounding\<close> keeps all have a resolved uri (neither the marker
  \<open>#\<close> nor empty). Grounding is attached to the bot turns and only to them. From a state
  whose grounding buffer is resolved (the initial state is), every turn emitted over any
  sequence of messages carries resolved sources only, and the buffer stays resolved. Every
  bot turn a message emits carries the grounding buffer as it stands when the turn is
  emitted: the final turn of an interruption carries the buffer the message found; the
  non-final turn of a delta and the final turn of a turn-complete carry the buffer in force
  (the sources of the message's chunks when the delta comes with chunks, else the buffer
  the interruption left), and the buffer is emptied only after the final turn is emitted.
\<close>

theorem grounding_resolved:
  "resolved (resolveGrounding chunks) \<and>
   list_all carriesGrounding (turnsOf (snd (handleAll ims s))) \<and>
   (resolved (currentGrounding s) \<longrightarrow>
      list_all turnResolved (turnsOf (snd (handleAll ims s))) \<and>
      resolved (currentGrounding (fst (handleAll ims s)))) \<and>
   filter (\<lambda>t. author t = Bot) (turnsOf (snd (handleSessionMessage env m s))) =
     (if interrupted m \<and> currentOutputTranscription s \<noteq> []
      then [\<lparr> author = Bot, text' = currentOutputTranscription s, isFinal = True,
               grounding = Some (currentGrounding s) \<rparr>]
      else [])
     @ (case outputTranscription m of
          None \<Rightarrow> []
        | Some d \<Rightarrow> [\<lparr> author = Bot, text' = textInForce m s, isFinal = False,
                        grounding = Some (groundingInForce m s) \<rparr>])
     @ (if turnComplete m \<and> textInForce m s \<noteq> []
        then [\<lparr> author = Bot, text' = textInForce m s, isFinal = True,
                 grounding = Some (groundingInForce m s) \<rparr>]
        else []) \<and>
   currentOutputTranscription (fst (handleSessionMessage env m s)) =
     (if turnComplete m then [] else textInForce m s) \<and>
   currentGrounding (fst (handleSessionMessage env m s)) =
     (if turnComplete m \<and> textInForce m s \<noteq> [] then [] else groundingInForce m s)"
proof (intro conjI)
  show "resolved (resolveGrounding chunks)"
    by (rule resolved_resolveGrounding)
  show "list_all carriesGrounding (turnsOf (snd (handleAll ims s)))"
    by (rule handleAll_carriesGrounding)
  show "resolved (currentGrounding s) \<longrightarrow>
      list_all turnResolved (turnsOf (snd (handleAll ims s))) \<and>
      resolved (currentGrounding (fst (handleAll ims s)))"
    using handleAll_resolved [of s ims] by blast
  show "filter (\<lambda>t. author t = Bot) (turnsOf (snd (handleSessionMessage env m s))) =
     (if interrupted m \<and> currentOutputTranscription s \<noteq> []
      then [\<lparr> author = Bot, text' = currentOutputTranscription s, isFinal = True,
               grounding = Some (currentGrounding s) \<rparr>]
      else [])
     @ (case outputTranscription m of
          None \<Rightarrow> []
        | Some d \<Rightarrow> [\<lparr> author = Bot, text' = textInForce m s, isFinal = False,
                        grounding = Some (groundingInForce m s) \<rparr>])
     @ (if turnComplete m \<and> textInForce m s \<noteq> []
        then [\<lparr> author = Bot, text' = textInForce m s, isFinal = True,
                 grounding = Some (groundingInForce m s) \<rparr>]
        else [])"
    by (rule message_bot_turns)
  show "currentOutputTranscription (fst (handleSessionMessage env m s)) =
     (if turnComplete m then [] else textInForce m s)"
    by (simp add: message_bot_acc textInForce_def)
  show "currentGrounding (fst (handleSessionMessage env m s)) =
     (if turnComplete m \<and> textInForce m s \<noteq> [] then [] else groundingInForce m s)"
    by (rule message_grounding_after)
qed

theorem grounding_resolved_witness:
  "resolved (currentGrounding initialService) \<and>
   resolveGrounding sampleChunks =
     [\<lparr> title = ''Docs'', uri = ''https://a.example'' \<rparr>, \<lparr> title = ''Source'', uri = ''geo:1'' \<rparr>] \<and>
   list_all turnResolved (turnsOf (snd (handleAll groundedRun initialService))) \<and>
   resolved (currentGrounding (fst (handleAll groundedRun initialService))) \<and>
   filter (\<lambda>t. author t = Bot) (turnsOf (snd (handleSessionMessage sampleEnv lastDelta busyService))) =
     [\<lparr> author = Bot, text' = ''Hello'', isFinal = False,
        grounding = Some [\<lparr> title = ''Source'', uri = ''https://example.org'' \<rparr>] \<rparr>,
      \<lparr> author = Bot, text' = ''Hello'', isFinal = True,
        grounding = Some [\<lparr> title = ''Source'', uri = ''https://example.org'' \<rparr>] \<rparr>] \<and>
   currentGrounding (fst (handleSessionMessage sampleEnv lastDelta busyService)) = [] \<and>
   filter (\<lambda>t. author t = Bot) (turnsOf (snd (handleSessionMessage sampleEnv bargeIn busyService))) =
     [\<lparr> author = Bot, text' = ''Hel'', isFinal = True,
        grounding = Some [\<lparr> title = ''Source'', uri = ''https://example.org'' \<rparr>] \<rparr>]"
proof -
  have r: "resolved (currentGrounding initialService)"
    by (simp add: resolved_def initialService_def)
  have g: "resolveGrounding sampleChunks =
     [\<lparr> title = ''Docs'', uri = ''https://a.example'' \<rparr>, \<lparr> title = ''Source'', uri = ''geo:1'' \<rparr>]"
    by (simp add: resolveGrounding_def sampleChunks_def toSource_def optField_def)
  have f: "textInForce lastDelta busyService = ''Hello''"
    "groundingInForce lastDelta busyService = [\<lparr> title = ''Source'', uri = ''https://example.org'' \<rparr>]"
    "interrupted lastDelta = False" "turnComplete lastDelta = True"
    "outputTranscription lastDelta = Some ''lo''"
    "textInForce bargeIn busyService = []"
    "interrupted bargeIn = True" "turnComplete bargeIn = False"
    "outputTranscription bargeIn = None"
    "currentOutputTranscription busyService = ''Hel''"
    "currentGrounding busyService = [\<lparr> title = ''Source'', uri = ''https://example.org'' \<rparr>]"
    by (simp_all add: textInForce_def groundingInForce_def lastDelta_def bargeIn_def
        emptyMessage_def busyService_def initialService_def)
  show ?thesis
    using grounding_resolved [of sampleChunks groundedRun initialService sampleEnv emptyMessage]
      grounding_resolved [of sampleChunks groundedRun busyService sampleEnv lastDelta]
      grounding_resolved [of sampleChunks groundedRun busyService sampleEnv bargeIn] r g
    by (simp add: f)
qed

text \<open>
  C9 (as amended). The user message is chosen by substring tests on the lower-cased raw
  message, in this order: \<open>api key not valid\<close> gives the invalid-key message;
  \<open>network\<close> or \<open>failed to fetch\<close> the network message; \<open>permission denied\<close> the
  permission message; \<open>quota\<close> the quota message; anything else, the empty message
  included, the generic message. The message is delivered in one status update to ERROR.
\<close>

theorem error_classification:
  "userMessage e =
     (if sublist ''api key not valid'' (toLowerCase e) then msgApiKey
      else if sublist ''network'' (toLowerCase e) \<or> sublist ''failed to fetch'' (toLowerCase e)
        then msgNetwork
      else if sublist ''permission denied'' (toLowerCase e) then msgPermission
      else if sublist ''quota'' (toLowerCase e) then msgQuota
      else msgUnexpected) \<and>
   statusesOf (snd (handleSessionError st e s)) = [(ERROR, Some (userMessage e))]"
proof (intro conjI)
  show "userMessage e =
     (if sublist ''api key not valid'' (toLowerCase e) then msgApiKey
      else if sublist ''network'' (toLowerCase e) \<or> sublist ''failed to fetch'' (toLowerCase e)
        then msgNetwork
      else if sublist ''permission denied'' (toLowerCase e) then msgPermission
      else if sublist ''quota'' (toLowerCase e) then msgQuota
      else msgUnexpected)"
  proof (cases "e = []")
    case True
    then show ?thesis by (simp add: userMessage_def toLowerCase_def)
  next
    case False
    then show ?thesis by (simp add: userMessage_def Let_def includes'_sublist)
  qed
  show "statusesOf (snd (handleSessionError st e s)) = [(ERROR, Some (userMessage e))]"
    by (simp add: snd_handleSessionError statusesOf_stopSession)
qed

theorem error_classification_witness:
  "userMessage ''API key not valid. Please pass a valid API key.'' = msgApiKey \<and>
   userMessage ''TypeError: Failed to fetch'' = msgNetwork \<and>
   userMessage ''PERMISSION DENIED'' = msgPermission \<and>
   userMessage ''Quota exceeded'' = msgQuota \<and>
   userMessage ''socket closed'' = msgUnexpected \<and>
   statusesOf (snd (handleSessionError allRunning ''Quota exceeded'' liveService))
     = [(ERROR, Some msgQuota)]"
proof -
  have q: "userMessage ''Quota exceeded'' = msgQuota" by code_simp
  have "userMessage ''API key not valid. Please pass a valid API key.'' = msgApiKey" by code_simp
  moreover have "userMessage ''TypeError: Failed to fetch'' = msgNetwork" by code_simp
  moreover have "userMessage ''PERMISSION DENIED'' = msgPermission" by code_simp
  moreover have "userMessage ''socket closed'' = msgUnexpected" by code_simp
  ultimately show ?thesis
    using error_classification [of "''Quota exceeded''" allRunning liveService] q by simp
qed

text \<open>
  The claim as first stated fails: a message that contains \<open>api key\<close> but not
  \<open>api key not valid\<close>, or \<open>fetch\<close> but not \<open>failed to fetch\<close>, gets the generic
  message, and \<open>permission denied\<close> does not.
\<close>

theorem error_classification_counterexample:
  "includes' (toLowerCase ''Missing API key'') ''api key'' \<and>
   userMessage ''Missing API key'' \<noteq> msgApiKey \<and>
   includes' (toLowerCase ''fetch aborted'') ''fetch'' \<and>
   userMessage ''fetch aborted'' \<noteq> msgNetwork \<and>
   userMessage ''Permission denied'' \<noteq> msgUnexpected"
  by code_simp

text \<open>
  C10. \<open>stopSession\<close> makes no status update: in every state, and whatever the contexts
  report, the statuses of a trace are the same with the call's events appended. The events
  of \<open>handleSessionError\<close> are the error cue, the update to ERROR with the classified
  message, and then those of \<open>stopSession\<close>, so ERROR stays the last status reported.
\<close>

theorem stop_reports_no_status:
  "statusesOf (snd (stopSession st s)) = [] \<and>
   statusesOf (evs @ snd (stopSession st s)) = statusesOf evs \<and>
   snd (handleSessionError st e s) =
     PlayCue CueError # StatusUpdate ERROR (Some (userMessage e)) # snd (stopSession st s) \<and>
   statusesOf (evs @ snd (handleSessionError st e s)) =
     statusesOf evs @ [(ERROR, Some (userMessage e))]"
  by (simp add: statusesOf_append statusesOf_stopSession snd_handleSessionError)

theorem stop_reports_no_status_witness:
  "snd (stopSession allRunning liveService) =
     [PlayCue CueStop, SessionClose 5, TracksStop 6, SourceDisconnect 8, ProcessorDisconnect 9,
      ContextClose 1, ContextClose 2, SourceStop 3, SourceStop 4] \<and>
   statusesOf ([StatusUpdate SPEAKING None]
       @ snd (handleSessionError allRunning ''quota'' liveService)) =
     [(SPEAKING, None), (ERROR, Some (userMessage ''quota''))]"
proof -
  have "snd (stopSession allRunning liveService) =
     [PlayCue CueStop, SessionClose 5, TracksStop 6, SourceDisconnect 8, ProcessorDisconnect 9,
      ContextClose 1, ContextClose 2, SourceStop 3, SourceStop 4]"
    by (simp add: stopSession_def release_def closeIfOpen_def allRunning_def liveService_def
        initialService_def)
  then show ?thesis
    using stop_reports_no_status
      [of allRunning liveService "[StatusUpdate SPEAKING None]" "''quota''"]
    by simp
qed

end
